theory Spec2Isabelle
  imports Main "HOL-Library.AList"
begin

section \<open>Values of the JavaScript runtime\<close>

text \<open>
  Device responses are decoded JSON. \<open>JNum n\<close> is the number \<open>n\<close> as the runtime holds
  it: the numbers of the protocol are integers (identifiers, speeds, dimensions, channel
  numbers), and comparing, clamping and multiplying them is exact on integers. Strings are
  lists of code units, so \<open>length\<close> is the \<open>.length\<close> of the source. An object is the
  list of its own properties in enumeration order, with distinct keys.
\<close>

datatype json =
    JNull
  | JBool bool
  | JNum int
  | JStr string
  | JArr "json list"
  | JObj "(string \<times> json) list"

text \<open>
  A string the source builds with a template literal or with \<open>String\<close> is kept as its
  pieces: literal text, and the values rendered into it. How a value is rendered is the
  runtime's work and depends on the value (a number in exponent form from \<open>1e21\<close> on, an
  array by joining its elements), so a piece keeps the value itself: \<open>Shown v\<close> is the
  runtime's string for \<open>v\<close>, and \<open>ShownNumberOf v\<close> the runtime's string for the
  number \<open>Number(v)\<close>. Texts that are equal here are equal strings in the source.
\<close>

datatype piece = Lit string | Shown json | ShownNumberOf json

type_synonym js_text = "piece list"

text \<open>\<open>${v}\<close> for a value that may be undefined, and for a string the string itself.\<close>

fun interp :: "json option \<Rightarrow> piece" where
  "interp None = Lit ''undefined''"
| "interp (Some (JStr s)) = Lit s"
| "interp (Some v) = Shown v"

text \<open>
  What a rejected promise carries: a plain \<open>Error\<close> with its message, the runtime's
  \<open>TypeError\<close> for a property read on null, an \<open>Error\<close> that has an \<open>rspCode\<close>
  property of its own, or the structured \<open>ReolinkHttpError\<close> of \<open>types.ts\<close>.
\<close>

record ReolinkHttpError =
  message :: js_text
  code :: int
  rspCode :: int
  detail :: js_text

datatype js_error =
    Error js_text
  | TypeError
  | CodedError js_text int
  | HttpError ReolinkHttpError

section \<open>Detection-zone grids (\<open>presets.ts\<close>)\<close>

text \<open>
  \<open>MdScopePayload\<close> and \<open>AiAreaPayload\<close> declare the same optional fields; an absent
  (or null) field is \<open>None\<close>. The payload itself may be undefined, which the source
  guards with \<open>?.\<close>.
\<close>

record ScopePayload =
  p_cols :: "int option"
  p_width :: "int option"
  p_rows :: "int option"
  p_height :: "int option"
  p_table :: "string option"
  p_area :: "string option"
  p_bits :: "string option"

type_synonym MdScopePayload = ScopePayload
type_synonym AiAreaPayload = ScopePayload

record GridArea =
  width :: int
  height :: int
  bits :: string

text \<open>\<open>a ?? b\<close> on optional fields.\<close>

fun nullish_or :: "'a option \<Rightarrow> 'a option \<Rightarrow> 'a option" where
  "nullish_or (Some a) b = Some a"
| "nullish_or None b = b"

text \<open>\<open>scope?.f\<close>: undefined when the payload itself is undefined.\<close>

definition opt_field :: "ScopePayload option \<Rightarrow> (ScopePayload \<Rightarrow> 'a option) \<Rightarrow> 'a option" where
  "opt_field scope f = (case scope of None \<Rightarrow> None | Some s \<Rightarrow> f s)"

text \<open>\<open>!n\<close> for an optional number: undefined and zero are falsy.\<close>

definition not_num :: "int option \<Rightarrow> bool" where
  "not_num n = (n = None \<or> n = Some 0)"

text \<open>The three values \<open>normalizeMdScope\<close> reads first: columns before width, table first.\<close>

definition md_width :: "MdScopePayload option \<Rightarrow> int option" where
  "md_width scope = nullish_or (opt_field scope p_cols) (opt_field scope p_width)"

definition md_height :: "MdScopePayload option \<Rightarrow> int option" where
  "md_height scope = nullish_or (opt_field scope p_rows) (opt_field scope p_height)"

definition md_table :: "MdScopePayload option \<Rightarrow> string option" where
  "md_table scope =
     nullish_or (opt_field scope p_table) (nullish_or (opt_field scope p_area) (opt_field scope p_bits))"

definition normalizeMdScope :: "MdScopePayload option \<Rightarrow> js_error + GridArea" where
  "normalizeMdScope scope =
    (let width = md_width scope; height = md_height scope; table = md_table scope
     in if not_num width \<or> not_num height \<or> table = None
        then Inl (Error [Lit ''Invalid motion detection scope received from device''])
        else if int (length (the table)) \<noteq> the width * the height
        then Inl (Error [Lit ''Motion detection scope size mismatch''])
        else Inr \<lparr> width = the width, height = the height, bits = the table \<rparr>)"

text \<open>\<open>normalizeAiArea\<close> prefers width over columns and area over table.\<close>

definition ai_width :: "AiAreaPayload option \<Rightarrow> int option" where
  "ai_width payload = nullish_or (opt_field payload p_width) (opt_field payload p_cols)"

definition ai_height :: "AiAreaPayload option \<Rightarrow> int option" where
  "ai_height payload = nullish_or (opt_field payload p_height) (opt_field payload p_rows)"

definition ai_bits :: "AiAreaPayload option \<Rightarrow> string option" where
  "ai_bits payload =
     nullish_or (opt_field payload p_area) (nullish_or (opt_field payload p_table) (opt_field payload p_bits))"

definition normalizeAiArea :: "AiAreaPayload option \<Rightarrow> js_error + GridArea" where
  "normalizeAiArea payload =
    (let width = ai_width payload; height = ai_height payload; bits = ai_bits payload
     in if not_num width \<or> not_num height \<or> bits = None
        then Inl (Error [Lit ''Invalid AI detection area received from device''])
        else if int (length (the bits)) \<noteq> the width * the height
        then Inl (Error [Lit ''AI detection area size mismatch''])
        else Inr \<lparr> width = the width, height = the height, bits = the bits \<rparr>)"

text \<open>The payloads of the scenarios: a 4 by 3 grid for a given bit-string, and two degenerate grids.\<close>

definition grid_4x3 :: "string \<Rightarrow> ScopePayload" where
  "grid_4x3 t = \<lparr> p_cols = None, p_width = Some 4, p_rows = None, p_height = Some 3,
     p_table = Some t, p_area = None, p_bits = None \<rparr>"

definition grid_0x3 :: ScopePayload where
  "grid_0x3 = \<lparr> p_cols = None, p_width = Some 0, p_rows = None, p_height = Some 3,
     p_table = Some [], p_area = None, p_bits = None \<rparr>"

definition grid_3x0 :: ScopePayload where
  "grid_3x0 = \<lparr> p_cols = Some 3, p_width = None, p_rows = Some 0, p_height = None,
     p_table = None, p_area = None, p_bits = Some [] \<rparr>"

section \<open>Reading decoded JSON the way the source does\<close>

text \<open>
  A JavaScript value that may be \<open>undefined\<close> is a \<open>json option\<close>. \<open>field v k\<close> is
  \<open>v?.k\<close> (and \<open>v.k\<close> where the source has checked \<open>v\<close>): only objects have the
  properties read here, none of which is an array index or \<open>length\<close>.
\<close>

fun field :: "json option \<Rightarrow> string \<Rightarrow> json option" where
  "field (Some (JObj kvs)) k = map_of kvs k"
| "field _ k = None"

text \<open>\<open>v == null\<close>: null or undefined.\<close>

fun nullish :: "json option \<Rightarrow> bool" where
  "nullish None = True"
| "nullish (Some JNull) = True"
| "nullish (Some _) = False"

text \<open>\<open>a ?? d\<close> with a default that is defined.\<close>

fun or_else :: "json option \<Rightarrow> json \<Rightarrow> json" where
  "or_else None d = d"
| "or_else (Some JNull) d = d"
| "or_else (Some v) d = v"

text \<open>Truthiness, as \<open>if (v)\<close> and \<open>!v\<close> see it.\<close>

fun truthy :: "json option \<Rightarrow> bool" where
  "truthy None = False"
| "truthy (Some JNull) = False"
| "truthy (Some (JBool b)) = b"
| "truthy (Some (JNum n)) = (n \<noteq> 0)"
| "truthy (Some (JStr s)) = (s \<noteq> [])"
| "truthy (Some (JArr xs)) = True"
| "truthy (Some (JObj kvs)) = True"

fun isArray :: "json option \<Rightarrow> bool" where
  "isArray (Some (JArr xs)) = True"
| "isArray _ = False"

fun elements :: "json option \<Rightarrow> json list" where
  "elements (Some (JArr xs)) = xs"
| "elements _ = []"

text \<open>\<open>typeof v === 'object'\<close> holds for null, arrays and objects.\<close>

fun typeof_object :: "json option \<Rightarrow> bool" where
  "typeof_object (Some JNull) = True"
| "typeof_object (Some (JArr xs)) = True"
| "typeof_object (Some (JObj kvs)) = True"
| "typeof_object _ = False"

text \<open>\<open>k in v\<close> for a property name that is not an array index.\<close>

fun has_key :: "string \<Rightarrow> json option \<Rightarrow> bool" where
  "has_key k (Some (JObj kvs)) = (k \<in> set (map fst kvs))"
| "has_key k _ = False"

fun object_keys :: "json option \<Rightarrow> string list" where
  "object_keys (Some (JObj kvs)) = map fst kvs"
| "object_keys _ = []"

subsection \<open>\<open>Number\<close> and \<open>String\<close>\<close>

text \<open>
  \<open>Number(v)\<close>. A number is itself, a boolean is 0 or 1, null is 0. What the runtime
  makes of a string, an array or an object (a parsed numeric literal, or not a number) is
  kept as \<open>NumberOf v\<close>, and so is an integer beyond the safe range \<open>2^53 - 1\<close>, where
  the runtime's numbers are no longer all the integers.
\<close>

datatype jsnum = Num int | NumberOf json

fun Number_js :: "json \<Rightarrow> jsnum" where
  "Number_js JNull = Num 0"
| "Number_js (JBool b) = Num (if b then 1 else 0)"
| "Number_js (JNum n) = (if \<bar>n\<bar> \<le> 9007199254740991 then Num n else NumberOf (JNum n))"
| "Number_js v = NumberOf v"

text \<open>\<open>${n}\<close> for a converted number, and \<open>String(v)\<close>.\<close>

fun shown_num :: "jsnum \<Rightarrow> piece" where
  "shown_num (Num n) = Shown (JNum n)"
| "shown_num (NumberOf v) = ShownNumberOf v"

definition String_js :: "json \<Rightarrow> js_text" where
  "String_js v = [interp (Some v)]"

text \<open>\<open>String(a ?? t)\<close> where \<open>t\<close> is already a string.\<close>

fun text_or :: "json option \<Rightarrow> js_text \<Rightarrow> js_text" where
  "text_or None t = t"
| "text_or (Some JNull) t = t"
| "text_or (Some v) t = String_js v"

section \<open>Preset normalization (\<open>PresetsModule.listPresets\<close>)\<close>

record PtzPreset =
  ptz_id :: jsnum
  ptz_name :: js_text
  ptz_enable :: bool
  ptz_channel :: jsnum

text \<open>
  The last-resort loop over \<open>Object.keys(response)\<close>: the first key whose value is a
  non-empty array with a preset-like first element, or an object holding an array under
  \<open>preset\<close> or \<open>Preset\<close>, decides.
\<close>

fun fallback_scan :: "json option \<Rightarrow> string list \<Rightarrow> json option" where
  "fallback_scan response [] = None"
| "fallback_scan response (key # keys) =
    (let value = field response key in
     if isArray value \<and> length (elements value) > 0
        \<and> (let firstElement = Some (hd (elements value))
            in truthy firstElement \<and> typeof_object firstElement
               \<and> (has_key ''id'' firstElement \<or> has_key ''ID'' firstElement))
     then value
     else if truthy value \<and> typeof_object value \<and> \<not> isArray value
             \<and> has_key ''preset'' value \<and> isArray (field value ''preset'')
     then field value ''preset''
     else if truthy value \<and> typeof_object value \<and> \<not> isArray value
             \<and> has_key ''Preset'' value \<and> isArray (field value ''Preset'')
     then field value ''Preset''
     else fallback_scan response keys)"

text \<open>\<open>Array.isArray(v) ? v : [v]\<close> for a truthy \<open>v\<close>.\<close>

fun as_array :: "json option \<Rightarrow> json option" where
  "as_array (Some (JArr xs)) = Some (JArr xs)"
| "as_array (Some v) = Some (JArr [v])"
| "as_array None = None"

text \<open>The chain of schema shapes tried in order; \<open>None\<close> is the initial \<open>null\<close>.\<close>

definition find_rawPresets :: "json option \<Rightarrow> json option" where
  "find_rawPresets response =
    (let PtzPreset = field response ''PtzPreset'' in
     if truthy PtzPreset \<and> typeof_object PtzPreset \<and> \<not> isArray PtzPreset
     then (if truthy (field PtzPreset ''preset'') then field PtzPreset ''preset'' else None)
     else if isArray PtzPreset then PtzPreset
     else if truthy (field response ''preset'') then as_array (field response ''preset'')
     else if truthy (field response ''Presets'') then as_array (field response ''Presets'')
     else if isArray response then response
     else if truthy response \<and> typeof_object response
     then fallback_scan response (object_keys response)
     else None)"

text \<open>The filter callback: the entry is not null and has a non-null \<open>id\<close> or \<open>ID\<close>.\<close>

definition has_identity :: "json \<Rightarrow> bool" where
  "has_identity preset =
    (\<not> nullish (Some preset)
     \<and> (\<not> nullish (field (Some preset) ''id'') \<or> \<not> nullish (field (Some preset) ''ID'')))"

text \<open>The map callback.\<close>

definition to_PtzPreset :: "int \<Rightarrow> json \<Rightarrow> PtzPreset" where
  "to_PtzPreset channel preset =
    (let p = Some preset;
         id = Number_js (or_else (field p ''id'') (or_else (field p ''ID'') (JNum 0)));
         name = text_or (field p ''name'')
                  (text_or (field p ''Name'') [Lit ''Preset '', shown_num id]);
         enable = (if \<not> nullish (field p ''enable'')
                   then field p ''enable'' = Some (JNum 1) \<or> field p ''enable'' = Some (JBool True)
                   else True);
         presetChannel = Number_js (or_else (field p ''channel'')
                           (or_else (field p ''Channel'') (JNum channel)))
     in \<lparr> ptz_id = id, ptz_name = name, ptz_enable = enable, ptz_channel = presetChannel \<rparr>)"

text \<open>The closing \<open>.filter(...).map(...)\<close> over the raw entries.\<close>

definition normalize_entries :: "int \<Rightarrow> json list \<Rightarrow> PtzPreset list" where
  "normalize_entries channel rawPresets = map (to_PtzPreset channel) (filter has_identity rawPresets)"

text \<open>
  \<open>listPresets\<close> after the exchange: from the value the \<open>GetPtzPreset\<close> request
  resolved to (possibly undefined) to the canonical presets.
\<close>

definition listPresets :: "int \<Rightarrow> json option \<Rightarrow> PtzPreset list" where
  "listPresets channel response =
    (if \<not> truthy response then []
     else
       let found = find_rawPresets response;
           rawPresets = (if \<not> truthy found \<or> \<not> isArray found then [] else elements found)
       in normalize_entries channel rawPresets)"

text \<open>Entries as the unit tests of \<open>listPresets\<close> have them.\<close>

definition entry_valid :: json where
  "entry_valid = JObj [(''id'', JNum 1), (''name'', JStr ''Valid''), (''enable'', JNum 1)]"

definition entry_no_id :: json where
  "entry_no_id = JObj [(''name'', JStr ''No ID''), (''enable'', JNum 1)]"

definition entry_upper :: json where
  "entry_upper = JObj [(''ID'', JNum 2), (''enable'', JNum 0)]"

definition entry_bare :: json where
  "entry_bare = JObj [(''id'', JNum 8), (''name'', JStr ''No Enable'')]"

definition sample_entries :: "json list" where
  "sample_entries = [entry_valid, JNull, entry_no_id, entry_upper]"

text \<open>
  The schema shapes a collection of raw entries can arrive in: wrapped under
  \<open>PtzPreset.preset\<close>, \<open>PtzPreset\<close> itself the array, \<open>preset\<close> or \<open>Presets\<close> at the
  root (an array, or the single entry itself when there is exactly one), the response
  itself the array, and under an unknown key, directly or one object deeper.
\<close>

datatype shape =
    Wrapped
  | PtzPresetArray
  | RootPreset
  | RootPresets
  | SingularPreset
  | SingularPresets
  | RootArray
  | UnknownKey string
  | UnknownNested string string

fun singular :: "json list \<Rightarrow> json" where
  "singular [p] = p"
| "singular ps = JArr ps"

fun encode :: "shape \<Rightarrow> json list \<Rightarrow> json" where
  "encode Wrapped ps = JObj [(''PtzPreset'', JObj [(''preset'', JArr ps)])]"
| "encode PtzPresetArray ps = JObj [(''PtzPreset'', JArr ps)]"
| "encode RootPreset ps = JObj [(''preset'', JArr ps)]"
| "encode RootPresets ps = JObj [(''Presets'', JArr ps)]"
| "encode SingularPreset ps = JObj [(''preset'', singular ps)]"
| "encode SingularPresets ps = JObj [(''Presets'', singular ps)]"
| "encode RootArray ps = JArr ps"
| "encode (UnknownKey k) ps = JObj [(k, JArr ps)]"
| "encode (UnknownNested k sub) ps = JObj [(k, JObj [(sub, JArr ps)])]"

definition known_key :: "string \<Rightarrow> bool" where
  "known_key k = (k = ''PtzPreset'' \<or> k = ''preset'' \<or> k = ''Presets'')"

fun preset_like :: "json list \<Rightarrow> bool" where
  "preset_like (JObj kvs # ps) = (''id'' \<in> set (map fst kvs) \<or> ''ID'' \<in> set (map fst kvs))"
| "preset_like _ = False"

fun not_array :: "json list \<Rightarrow> bool" where
  "not_array [JArr xs] = False"
| "not_array ps = True"

text \<open>
  When the entries \<open>ps\<close> are in a shape: a singular entry is not itself an array; under
  an unknown key the array is non-empty and its first element is an object with an
  \<open>id\<close> or \<open>ID\<close> key (the duck-typing test), or the nested key is \<open>preset\<close> or
  \<open>Preset\<close>.
\<close>

fun in_shape :: "shape \<Rightarrow> json list \<Rightarrow> bool" where
  "in_shape SingularPreset ps = not_array ps"
| "in_shape SingularPresets ps = not_array ps"
| "in_shape (UnknownKey k) ps = (\<not> known_key k \<and> preset_like ps)"
| "in_shape (UnknownNested k sub) ps = (\<not> known_key k \<and> (sub = ''preset'' \<or> sub = ''Preset''))"
| "in_shape _ ps = True"

section \<open>The structured exception (\<open>types.ts\<close>)\<close>

text \<open>
  The constructor of \<open>ReolinkHttpError\<close>: the message names the command when one is
  given (and not empty), and the three fields are stored as passed.
\<close>

definition new_ReolinkHttpError :: "int \<Rightarrow> int \<Rightarrow> js_text \<Rightarrow> string option \<Rightarrow> ReolinkHttpError" where
  "new_ReolinkHttpError c r d command =
    \<lparr> message = (case command of
                    Some name \<Rightarrow> if name \<noteq> []
                                 then [Lit name, Lit '' ERROR: ''] @ d @ [Lit '' ('', Shown (JNum r), Lit '')'']
                                 else d @ [Lit '' ('', Shown (JNum r), Lit '')'']
                  | None \<Rightarrow> d @ [Lit '' ('', Shown (JNum r), Lit '')'']),
      code = c, rspCode = r, detail = d \<rparr>"

section \<open>Requests to the device\<close>

text \<open>
  A call of \<open>client.request\<close> or \<open>client.api\<close>: command name, parameter object and
  the action selector when the caller passes one. The client is what each call settles
  to (a rejection or the resolved value); the log is the sequence of calls made so far,
  so that a function which throws before its request leaves the log as it was.
\<close>

record call =
  cmd :: string
  param :: json
  action :: "int option"

type_synonym client = "call \<Rightarrow> js_error + json"

definition request :: "client \<Rightarrow> call \<Rightarrow> call list \<Rightarrow> (js_error + json) \<times> call list" where
  "request client c log = (client c, log @ [c])"

text \<open>\<open>typeof v === 'number'\<close>, with the number.\<close>

fun number_of :: "json option \<Rightarrow> int option" where
  "number_of (Some (JNum n)) = Some n"
| "number_of _ = None"

text \<open>A number outside \<open>lo..hi\<close>; anything that is not a number passes.\<close>

definition out_of_range :: "int \<Rightarrow> int \<Rightarrow> json option \<Rightarrow> bool" where
  "out_of_range lo hi v = (case number_of v of Some n \<Rightarrow> n < lo \<or> n > hi | None \<Rightarrow> False)"

subsection \<open>\<open>PresetsModule.gotoPreset\<close> and \<open>ptzCtrl\<close>\<close>

record PtzMoveOptions =
  opt_speed :: "int option"
  opt_settleMs :: "int option"

text \<open>
  The delay that follows the request (\<open>settleMs\<close>) is a wait and is left out; it makes
  no request.
\<close>

definition gotoPreset ::
  "client \<Rightarrow> int \<Rightarrow> int \<Rightarrow> PtzMoveOptions \<Rightarrow> call list \<Rightarrow> (js_error + json) \<times> call list" where
  "gotoPreset client channel id' opts log =
    (if id' < 0 \<or> id' > 64
     then (Inl (Error [Lit ''Preset ID must be between 0 and 64, got: '', Shown (JNum id')]), log)
     else
       let speed = (case opt_speed opts of Some s \<Rightarrow> max 1 (min 64 s) | None \<Rightarrow> 32)
       in request client
            \<lparr> cmd = ''PtzCtrl'',
              param = JObj [(''channel'', JNum channel), (''op'', JStr ''ToPos''),
                            (''id'', JNum id'), (''speed'', JNum speed)],
              action = None \<rparr> log)"

record PtzCtrlParams =
  c_channel :: int
  c_op :: string
  c_speed :: "int option"
  c_id :: "int option"
  c_x :: "int option"
  c_y :: "int option"
  c_z :: "int option"

text \<open>\<open>apiParams.k = v\<close> when the condition holds.\<close>

definition add_if :: "bool \<Rightarrow> string \<Rightarrow> int option \<Rightarrow> (string \<times> json) list \<Rightarrow> (string \<times> json) list" where
  "add_if b k v ps = (case v of Some n \<Rightarrow> if b then AList.update k (JNum n) ps else ps | None \<Rightarrow> ps)"

definition ptzCtrl :: "client \<Rightarrow> PtzCtrlParams \<Rightarrow> call list \<Rightarrow> (js_error + json) \<times> call list" where
  "ptzCtrl client params log =
    (if c_speed params \<noteq> None \<and> (the (c_speed params) < 1 \<or> the (c_speed params) > 64)
     then (Inl (Error [Lit ''PTZ speed must be between 1 and 64, got: '', Shown (JNum (the (c_speed params)))]), log)
     else if c_op params = ''ToPos'' \<and> c_id params \<noteq> None
             \<and> (the (c_id params) < 0 \<or> the (c_id params) > 64)
     then (Inl (Error [Lit ''Preset ID must be between 0 and 64, got: '', Shown (JNum (the (c_id params)))]), log)
     else if (c_op params = ''StartPatrol'' \<or> c_op params = ''StopPatrol'') \<and> c_id params \<noteq> None
             \<and> (the (c_id params) < 0 \<or> the (c_id params) > 5)
     then (Inl (Error [Lit ''Patrol ID must be between 0 and 5, got: '', Shown (JNum (the (c_id params)))]), log)
     else
       let op = c_op params;
           apiParams = [(''channel'', JNum (c_channel params)), (''op'', JStr op)];
           apiParams = add_if True ''speed'' (c_speed params) apiParams;
           apiParams = add_if (op = ''ToPos'' \<or> op = ''StartPatrol'' \<or> op = ''StopPatrol'')
                         ''id'' (c_id params) apiParams;
           positioned = (op = ''ToPos'' \<and> c_x params \<noteq> None \<and> c_y params \<noteq> None);
           apiParams = add_if positioned ''x'' (c_x params) apiParams;
           apiParams = add_if positioned ''y'' (c_y params) apiParams;
           apiParams = add_if positioned ''z'' (c_z params) apiParams
       in request client \<lparr> cmd = ''PtzCtrl'', param = JObj apiParams, action = None \<rparr> log)"

subsection \<open>\<open>PresetsModule.setPatrol\<close> and \<open>setPattern\<close>\<close>

text \<open>
  The \<open>forEach\<close> over the steps: the first step that is an object with a numeric
  \<open>id\<close> outside 0..64, or else a numeric \<open>speed\<close> outside 1..64, throws.
\<close>

fun check_patrol_steps :: "nat \<Rightarrow> json list \<Rightarrow> js_error option" where
  "check_patrol_steps index [] = None"
| "check_patrol_steps index (step # steps) =
    (if typeof_object (Some step) \<and> step \<noteq> JNull
     then
       if out_of_range 0 64 (field (Some step) ''id'')
       then Some (Error [Lit ''Patrol step '', Shown (JNum (int index)), Lit '': preset ID must be between 0 and 64, got: '',
                    interp (field (Some step) ''id'')])
       else if out_of_range 1 64 (field (Some step) ''speed'')
       then Some (Error [Lit ''Patrol step '', Shown (JNum (int index)), Lit '': speed must be between 1 and 64, got: '',
                    interp (field (Some step) ''speed'')])
       else check_patrol_steps (Suc index) steps
     else check_patrol_steps (Suc index) steps)"

text \<open>\<open>{ channel, ...payload }\<close>: the payload's properties over the channel.\<close>

definition spread_over :: "(string \<times> json) list \<Rightarrow> (string \<times> json) list \<Rightarrow> (string \<times> json) list" where
  "spread_over base props = foldl (\<lambda>acc kv. AList.update (fst kv) (snd kv) acc) base props"

definition setPatrol ::
  "client \<Rightarrow> int \<Rightarrow> (string \<times> json) list \<Rightarrow> call list \<Rightarrow> (js_error + json) \<times> call list" where
  "setPatrol client channel payload log =
    (let p = Some (JObj payload) in
     if out_of_range 0 5 (field p ''id'')
     then (Inl (Error [Lit ''Patrol ID must be between 0 and 5, got: '', interp (field p ''id'')]), log)
     else if isArray (field p ''preset'') \<and> length (elements (field p ''preset'')) > 16
     then (Inl (Error [Lit ''Patrol can have at most 16 preset steps, got: '',
                    Shown (JNum (int (length (elements (field p ''preset'')))))]), log)
     else
       case (if isArray (field p ''preset'')
             then check_patrol_steps 0 (elements (field p ''preset'')) else None) of
         Some e \<Rightarrow> (Inl e, log)
       | None \<Rightarrow>
           request client
             \<lparr> cmd = ''SetPtzPatrol'',
               param = JObj [(''PtzPatrol'', JObj (spread_over [(''channel'', JNum channel)] payload))],
               action = None \<rparr> log)"

fun check_tracks :: "nat \<Rightarrow> json list \<Rightarrow> js_error option" where
  "check_tracks index [] = None"
| "check_tracks index (track # tracks) =
    (if typeof_object (Some track) \<and> track \<noteq> JNull \<and> out_of_range 1 6 (field (Some track) ''id'')
     then Some (Error [Lit ''Track '', Shown (JNum (int index)), Lit '': track ID must be between 1 and 6, got: '',
                    interp (field (Some track) ''id'')])
     else check_tracks (Suc index) tracks)"

definition setPattern ::
  "client \<Rightarrow> int \<Rightarrow> (string \<times> json) list \<Rightarrow> call list \<Rightarrow> (js_error + json) \<times> call list" where
  "setPattern client channel payload log =
    (let p = Some (JObj payload) in
     case (if isArray (field p ''track'') then check_tracks 0 (elements (field p ''track'')) else None) of
       Some e \<Rightarrow> (Inl e, log)
     | None \<Rightarrow> request client \<lparr> cmd = ''SetPtzTattern'', param = JObj payload, action = None \<rparr> log)"

text \<open>Inputs of the unit tests: a client that resolves every call, and their options.\<close>

definition accepting :: client where
  "accepting c = Inr (JObj [])"

definition speed_only :: "int \<Rightarrow> PtzMoveOptions" where
  "speed_only s = \<lparr> opt_speed = Some s, opt_settleMs = None \<rparr>"

definition move_left :: "int \<Rightarrow> PtzCtrlParams" where
  "move_left s = \<lparr> c_channel = 0, c_op = ''Left'', c_speed = Some s, c_id = None,
     c_x = None, c_y = None, c_z = None \<rparr>"

definition toPos_call :: "int \<Rightarrow> int \<Rightarrow> int \<Rightarrow> call" where
  "toPos_call ch i s = \<lparr> cmd = ''PtzCtrl'',
     param = JObj [(''channel'', JNum ch), (''op'', JStr ''ToPos''), (''id'', JNum i), (''speed'', JNum s)],
     action = None \<rparr>"

subsection \<open>\<open>setPtzPatrol\<close> (\<open>ptz.ts\<close>)\<close>

text \<open>
  \<open>handlePtzError\<close>, which never returns: what it throws for a device code. The device
  code is kept; the detail is a fixed text chosen by the code.
\<close>

definition handlePtzError :: "int \<Rightarrow> string \<Rightarrow> js_error" where
  "handlePtzError r name =
    (if r = 0 then Error [Lit ''handlePtzError called with success code (0) - this should not happen'']
     else if r = - 1 then HttpError (new_ReolinkHttpError 1 (- 1) [Lit ''Invalid preset or position''] (Some name))
     else if r = - 4 then HttpError (new_ReolinkHttpError 1 (- 4) [Lit ''Parameter format error''] (Some name))
     else if r = - 9 then HttpError (new_ReolinkHttpError 1 (- 9) [Lit ''Not supported on this model''] (Some name))
     else HttpError (new_ReolinkHttpError 1 r [Lit ''Unknown PTZ error '', Shown (JNum r)] (Some name)))"

text \<open>\<open>a || b\<close>, and \<open>"k" in config ? config.k : null\<close>.\<close>

definition js_or :: "json option \<Rightarrow> json option \<Rightarrow> json option" where
  "js_or a b = (if truthy a then a else b)"

definition in_or_null :: "string \<Rightarrow> json option \<Rightarrow> json option" where
  "in_or_null k c = (if has_key k c then field c k else Some JNull)"

fun check_ptz_steps :: "nat \<Rightarrow> json list \<Rightarrow> js_error option" where
  "check_ptz_steps index [] = None"
| "check_ptz_steps index (step # steps) =
    (if typeof_object (Some step) \<and> step \<noteq> JNull
     then
       let presetId = (if has_key ''id'' (Some step) then field (Some step) ''id''
                       else if has_key ''presetId'' (Some step) then field (Some step) ''presetId''
                       else None);
           speed = (if has_key ''speed'' (Some step) then field (Some step) ''speed'' else None)
       in if out_of_range 0 64 presetId
          then Some (Error [Lit ''Patrol step '', Shown (JNum (int index)), Lit '': preset ID must be between 0 and 64, got: '',
                    interp presetId])
          else if out_of_range 1 64 speed
          then Some (Error [Lit ''Patrol step '', Shown (JNum (int index)), Lit '': speed must be between 1 and 64, got: '',
                    interp speed])
          else check_ptz_steps (Suc index) steps
     else check_ptz_steps (Suc index) steps)"

text \<open>
  An object literal whose property values may be undefined: such properties are not part
  of the JSON that is sent.
\<close>

fun object_of :: "(string \<times> json option) list \<Rightarrow> json" where
  "object_of kvs = JObj (concat (map (\<lambda>kv. case snd kv of Some v \<Rightarrow> [(fst kv, v)] | None \<Rightarrow> []) kvs))"

text \<open>\<open>typeof e === "boolean" ? (e ? 1 : 0) : e\<close>.\<close>

fun as_flag :: "json option \<Rightarrow> json option" where
  "as_flag (Some (JBool b)) = Some (JNum (if b then 1 else 0))"
| "as_flag v = v"

text \<open>The test for the RLC-823A/S1 step structure on the first step.\<close>

fun rlc_structure :: "json list \<Rightarrow> bool" where
  "rlc_structure (firstPreset # rest) =
    (typeof_object (Some firstPreset) \<and> firstPreset \<noteq> JNull
     \<and> has_key ''id'' (Some firstPreset) \<and> has_key ''speed'' (Some firstPreset)
     \<and> has_key ''dwellTime'' (Some firstPreset))"
| "rlc_structure [] = False"

text \<open>\<open>{ channel, PtzPatrol: patrolConfig }\<close> and the pass-through \<open>{ ...config, channel }\<close>.\<close>

definition patrol_call :: "int \<Rightarrow> json \<Rightarrow> call" where
  "patrol_call channel patrolConfig =
    \<lparr> cmd = ''SetPtzPatrol'',
      param = JObj [(''channel'', JNum channel), (''PtzPatrol'', patrolConfig)],
      action = None \<rparr>"

definition passthrough_call :: "int \<Rightarrow> (string \<times> json) list \<Rightarrow> call" where
  "passthrough_call channel config =
    (let patrolConfig = AList.update ''channel'' (JNum channel) config;
         patrolConfig = (case map_of patrolConfig ''enable'' of
                           Some (JBool b) \<Rightarrow> AList.update ''enable'' (JNum (if b then 1 else 0)) patrolConfig
                         | _ \<Rightarrow> patrolConfig)
     in \<lparr> cmd = ''SetPtzPatrol'', param = JObj patrolConfig, action = None \<rparr>)"

text \<open>A legacy point as a preset step: \<open>{ id: p.presetId, speed: p.speed, dwellTime: p.stayTime }\<close>.\<close>

definition point_to_preset :: "json \<Rightarrow> json" where
  "point_to_preset p =
    object_of [(''id'', field (Some p) ''presetId''), (''speed'', field (Some p) ''speed''),
               (''dwellTime'', field (Some p) ''stayTime'')]"

text \<open>
  The request \<open>setPtzPatrol\<close> builds after validation, by the format of the
  configuration. Reading \<open>p.presetId\<close> on a null point throws before the request.
\<close>

definition patrol_request :: "int \<Rightarrow> (string \<times> json) list \<Rightarrow> js_error + call" where
  "patrol_request channel config =
    (let c = Some (JObj config);
         hasPresetArray = (has_key ''preset'' c \<and> isArray (field c ''preset'')
                           \<and> length (elements (field c ''preset'')) > 0);
         hasNameField = has_key ''name'' c;
         configId = (case number_of (field c ''id'') of Some n \<Rightarrow> JNum n | None \<Rightarrow> JNum 0);
         enableValue = as_flag (field c ''enable'')
     in
     if hasPresetArray \<and> \<not> hasNameField \<and> has_key ''id'' c \<and> truthy (field c ''preset'')
        \<and> rlc_structure (elements (field c ''preset''))
     then Inr (patrol_call channel
                (object_of [(''channel'', Some (or_else (field c ''channel'') (JNum channel))),
                            (''id'', Some configId), (''enable'', enableValue),
                            (''preset'', field c ''preset'')]))
     else if hasPresetArray \<and> hasNameField
     then Inr (passthrough_call channel config)
     else if has_key ''points'' c \<and> isArray (field c ''points'') \<and> has_key ''id'' c
     then (if JNull \<in> set (elements (field c ''points'')) then Inl TypeError
           else Inr (patrol_call channel
                  (object_of [(''channel'', Some (JNum channel)), (''id'', Some configId),
                              (''enable'', enableValue),
                              (''preset'', Some (JArr (map point_to_preset (elements (field c ''points'')))))])))
     else if has_key ''path'' c \<and> isArray (field c ''path'')
     then (if JNull \<in> set (elements (field c ''path'')) then Inl TypeError
           else Inr (patrol_call channel
                  (object_of [(''channel'', Some (JNum channel)),
                              (''id'', js_or (field c ''id'') (Some (JNum 0))),
                              (''enable'', enableValue),
                              (''preset'', Some (JArr (map point_to_preset (elements (field c ''path'')))))])))
     else Inr (passthrough_call channel config))"

text \<open>
  \<open>setPtzPatrol\<close> up to the settling of its one request. What the source does with
  the settled value afterwards (an error object found in it is mapped by
  \<open>handlePtzError\<close>; a \<open>ReolinkHttpError\<close> is re-thrown as it is) makes no request.
\<close>

definition setPtzPatrol ::
  "client \<Rightarrow> int \<Rightarrow> (string \<times> json) list \<Rightarrow> call list \<Rightarrow> (js_error + json) \<times> call list" where
  "setPtzPatrol client channel config log =
    (let c = Some (JObj config) in
     if has_key ''id'' c \<and> out_of_range 0 5 (field c ''id'')
     then (Inl (Error [Lit ''Patrol ID must be between 0 and 5, got: '', interp (field c ''id'')]), log)
     else
       let presetArray = js_or (field c ''preset'') (js_or (in_or_null ''points'' c) (in_or_null ''path'' c))
       in if isArray presetArray \<and> length (elements presetArray) > 16
          then (Inl (Error [Lit ''Patrol can have at most 16 preset steps, got: '',
                    Shown (JNum (int (length (elements presetArray))))]), log)
          else
            case (if isArray presetArray then check_ptz_steps 0 (elements presetArray) else None) of
              Some e \<Rightarrow> (Inl e, log)
            | None \<Rightarrow>
                (case patrol_request channel config of
                   Inl e \<Rightarrow> (Inl e, log)
                 | Inr call \<Rightarrow> request client call log))"

text \<open>
  A patrol with an empty \<open>preset\<close> array and a legacy \<open>points\<close> array whose one point
  names preset 100; the same point alone; and a point within range.
\<close>

definition point_100 :: json where
  "point_100 = JObj [(''presetId'', JNum 100), (''speed'', JNum 10), (''stayTime'', JNum 5)]"

definition patrol_empty_preset_with_points :: "(string \<times> json) list" where
  "patrol_empty_preset_with_points =
    [(''enable'', JNum 1), (''id'', JNum 0), (''preset'', JArr []), (''points'', JArr [point_100])]"

definition patrol_points_only :: "(string \<times> json) list" where
  "patrol_points_only = [(''enable'', JNum 1), (''id'', JNum 0), (''points'', JArr [point_100])]"

text \<open>A step, and a track, that the checks of \<open>setPatrol\<close> and \<open>setPattern\<close> let pass.\<close>

definition step_ok :: "json \<Rightarrow> bool" where
  "step_ok step = (\<not> (typeof_object (Some step) \<and> step \<noteq> JNull)
     \<or> (\<not> out_of_range 0 64 (field (Some step) ''id'') \<and> \<not> out_of_range 1 64 (field (Some step) ''speed'')))"

definition track_ok :: "json \<Rightarrow> bool" where
  "track_ok track = (\<not> (typeof_object (Some track) \<and> track \<noteq> JNull \<and> out_of_range 1 6 (field (Some track) ''id'')))"

subsection \<open>\<open>setPtzGuard\<close> (\<open>ptz.ts\<close>)\<close>















section \<open>The session manager and the request engine\<close>

text \<open>
  The client class (\<open>reolink.ts\<close>) is not among the sources; only its tests are. This
  section follows the specification's description of it, for a persistent-mode session.
\<close>

text \<open>Modelled from the spec: the Command Envelope of the absent request engine (command
  name, action selector, parameter object).\<close>

record CommandEnvelope =
  command :: string
  selector :: nat
  parameters :: json

text \<open>Modelled from the spec: the Result Entry the absent engine decodes, a success with
  its value or a failure with device code and detail.\<close>

datatype ResultEntry = Success json | Failure int string

text \<open>Modelled from the spec: the Credential Context owned by the absent session manager.\<close>

record CredentialContext =
  token :: string
  issuedAt :: int
  leaseSeconds :: int

text \<open>Modelled from the spec: the states of the absent session manager's state machine.\<close>

datatype Phase = Unauthenticated | Authenticated CredentialContext | Closed

text \<open>Modelled from the spec: the absent session object, with its stored credentials.\<close>

record Session =
  username :: string
  password :: string
  phase :: Phase

text \<open>Modelled from the spec: the physical exchanges the absent engine performs (login,
  one batch of envelopes under a token, logout).\<close>

datatype Exchange =
    LoginExchange string string
  | BatchExchange string "CommandEnvelope list"
  | LogoutExchange string

text \<open>Modelled from the spec: what an exchange yields at the transport boundary of the
  absent engine: nothing (network failure or timeout), an HTTP unauthorized status, or
  the ordered result entries.\<close>

datatype Reply = NoReply | Unauthorized | Entries "ResultEntry list"

text \<open>Modelled from the spec: the injectable transport of the absent engine, a device with
  a state of its own answering one exchange at a time.\<close>

type_synonym 'd transport = "'d \<Rightarrow> Exchange \<Rightarrow> Reply \<times> 'd"

text \<open>Modelled from the spec: the error kinds of the absent error classifier.\<close>

datatype ErrorKind = AuthError | NotSupportedError | InvalidParameterError | UnknownDeviceError

text \<open>Modelled from the spec: the errors the absent engine surfaces. A device-reported
  failure carries its kind, the device code and the detail text; an unauthorized status has
  no result entry behind it.\<close>

datatype EngineError =
    TransportError
  | ClosedError
  | NormalizationError
  | UnauthorizedError
  | DeviceError ErrorKind int string

text \<open>Modelled from the spec: the fixed table of the absent error classifier. The codes
  are those the repository documents: -1 invalid token, -9 not supported, -4 parameter
  format error.\<close>

definition kind_of :: "int \<Rightarrow> ErrorKind" where
  "kind_of c = (if c = - 1 then AuthError
                else if c = - 9 then NotSupportedError
                else if c = - 4 then InvalidParameterError
                else UnknownDeviceError)"

text \<open>Modelled from the spec: the absent error classifier, from a result entry to a value
  or a structured error.\<close>

fun classify :: "ResultEntry \<Rightarrow> EngineError + json" where
  "classify (Success v) = Inr v"
| "classify (Failure c d) = Inl (DeviceError (kind_of c) c d)"

text \<open>Modelled from the spec: the token-invalid signal the absent engine reacts to, a
  result entry with the token-invalid code or an HTTP unauthorized status.\<close>

fun token_invalid_entry :: "ResultEntry \<Rightarrow> bool" where
  "token_invalid_entry (Failure c d) = (kind_of c = AuthError)"
| "token_invalid_entry (Success v) = False"

text \<open>Modelled from the spec: the token-invalid signal of a whole reply to the absent
  engine, raised by any one of its entries or by the HTTP unauthorized status.\<close>

fun token_invalid :: "Reply \<Rightarrow> bool" where
  "token_invalid Unauthorized = True"
| "token_invalid (Entries es) = list_ex token_invalid_entry es"
| "token_invalid NoReply = False"

text \<open>Modelled from the spec: the token and lease duration in the value of a login reply
  of the absent session manager (the field names are those of the tests).\<close>

definition token_of :: "json \<Rightarrow> (string \<times> int) option" where
  "token_of v =
    (case (field (field (Some v) ''Token'') ''name'', field (field (Some v) ''Token'') ''leaseTime'') of
       (Some (JStr name), Some (JNum lease)) \<Rightarrow> Some (name, lease)
     | _ \<Rightarrow> None)"

text \<open>Modelled from the spec: what the absent session manager reads in the reply to a login
  exchange. A success entry with a token grants the token and its lease; a failure entry is
  an authentication error with the device's code and detail; no reply is a transport error.\<close>

fun read_login :: "Reply \<Rightarrow> EngineError + string \<times> int" where
  "read_login NoReply = Inl TransportError"
| "read_login Unauthorized = Inl UnauthorizedError"
| "read_login (Entries []) = Inl NormalizationError"
| "read_login (Entries (Failure c d # es)) = Inl (DeviceError AuthError c d)"
| "read_login (Entries (Success v # es)) =
    (case token_of v of None \<Rightarrow> Inl NormalizationError | Some granted \<Rightarrow> Inr granted)"

text \<open>Modelled from the spec: the active context of the absent session manager after a
  login granted at time \<open>now\<close>.\<close>

definition granted_at :: "int \<Rightarrow> string \<times> int \<Rightarrow> Session \<Rightarrow> Session" where
  "granted_at now granted s =
    s\<lparr> phase := Authenticated \<lparr> token = fst granted, issuedAt = now, leaseSeconds = snd granted \<rparr> \<rparr>"

text \<open>Modelled from the spec: \<open>authenticate\<close> of the absent session manager. One login
  exchange with the stored credentials; a granted token becomes the active context. The
  last component is the list of exchanges performed, each with its reply.\<close>

definition authenticate ::
  "'d transport \<Rightarrow> int \<Rightarrow> Session \<Rightarrow> 'd
    \<Rightarrow> (EngineError + string) \<times> Session \<times> 'd \<times> (Exchange \<times> Reply) list" where
  "authenticate T now s dev =
    (if phase s = Closed then (Inl ClosedError, s, dev, [])
     else
       let x = LoginExchange (username s) (password s);
           (r, dev1) = T dev x
       in case read_login r of
            Inl e \<Rightarrow> (Inl e, s, dev1, [(x, r)])
          | Inr granted \<Rightarrow> (Inr (fst granted), granted_at now granted s, dev1, [(x, r)]))"

text \<open>Modelled from the spec: \<open>currentToken\<close> of the absent session manager, the active
  token while \<open>now < issuedAt + leaseSeconds\<close> and a fresh authentication otherwise.\<close>

definition currentToken ::
  "'d transport \<Rightarrow> int \<Rightarrow> Session \<Rightarrow> 'd
    \<Rightarrow> (EngineError + string) \<times> Session \<times> 'd \<times> (Exchange \<times> Reply) list" where
  "currentToken T now s dev =
    (case phase s of
       Closed \<Rightarrow> (Inl ClosedError, s, dev, [])
     | Unauthenticated \<Rightarrow> authenticate T now s dev
     | Authenticated ctx \<Rightarrow>
         if now < issuedAt ctx + leaseSeconds ctx then (Inr (token ctx), s, dev, [])
         else authenticate T now s dev)"

text \<open>Modelled from the spec: \<open>invalidate\<close> of the absent session manager, which marks
  the context stale without contacting the device.\<close>

definition invalidate :: "Session \<Rightarrow> Session" where
  "invalidate s = (if phase s = Closed then s else s\<lparr> phase := Unauthenticated \<rparr>)"

text \<open>Modelled from the spec: the error of the absent engine for a reply that still
  signals an invalid token after the retry, carrying the code and detail of the first such
  entry.\<close>

fun auth_failure :: "ResultEntry list \<Rightarrow> EngineError" where
  "auth_failure [] = UnauthorizedError"
| "auth_failure (Failure c d # es) =
    (if kind_of c = AuthError then DeviceError AuthError c d else auth_failure es)"
| "auth_failure (Success v # es) = auth_failure es"

text \<open>Modelled from the spec: how the absent engine hands a reply that needs no retry to
  the caller, the entries as they are, or a transport error.\<close>

fun deliver :: "Reply \<Rightarrow> EngineError + ResultEntry list" where
  "deliver (Entries es) = Inr es"
| "deliver NoReply = Inl TransportError"
| "deliver Unauthorized = Inl UnauthorizedError"

text \<open>Modelled from the spec: the second attempt of the absent engine's \<open>submit\<close>, after a
  token-invalid signal: invalidate, authenticate again, send the same envelopes once more;
  a second token-invalid signal is final.\<close>

definition resubmit ::
  "'d transport \<Rightarrow> int \<Rightarrow> Session \<Rightarrow> 'd \<Rightarrow> CommandEnvelope list
    \<Rightarrow> (EngineError + ResultEntry list) \<times> Session \<times> 'd \<times> (Exchange \<times> Reply) list" where
  "resubmit T now s dev commands =
    (case currentToken T now (invalidate s) dev of
       (Inl e, s1, dev1, log) \<Rightarrow> (Inl e, s1, dev1, log)
     | (Inr name, s1, dev1, log) \<Rightarrow>
         let x = BatchExchange name commands;
             (r, dev2) = T dev1 x
         in if token_invalid r
            then (Inl (case r of Entries es \<Rightarrow> auth_failure es | _ \<Rightarrow> UnauthorizedError),
                  invalidate s1, dev2, log @ [(x, r)])
            else (deliver r, s1, dev2, log @ [(x, r)]))"

text \<open>Modelled from the spec: \<open>submit\<close> of the absent request engine. An empty sequence
  is a no-op; otherwise one exchange under the current token, and on a token-invalid
  signal the single retry.\<close>

definition submit ::
  "'d transport \<Rightarrow> int \<Rightarrow> Session \<Rightarrow> 'd \<Rightarrow> CommandEnvelope list
    \<Rightarrow> (EngineError + ResultEntry list) \<times> Session \<times> 'd \<times> (Exchange \<times> Reply) list" where
  "submit T now s dev commands =
    (if commands = [] then (Inr [], s, dev, [])
     else
       case currentToken T now s dev of
         (Inl e, s1, dev1, log) \<Rightarrow> (Inl e, s1, dev1, log)
       | (Inr name, s1, dev1, log) \<Rightarrow>
           let x = BatchExchange name commands;
               (r, dev2) = T dev1 x
           in if token_invalid r
              then (case resubmit T now s1 dev2 commands of
                      (res, s2, dev3, log2) \<Rightarrow> (res, s2, dev3, log @ [(x, r)] @ log2))
              else (deliver r, s1, dev2, log @ [(x, r)]))"

text \<open>Modelled from the spec: the device contract the absent engine relies on. The entries
  of a reply answer the envelopes of the batch one by one, in order; \<open>answer\<close> is what the
  device, in its state and under the token, answers to one envelope.\<close>

definition device_contract ::
  "'d transport \<Rightarrow> ('d \<Rightarrow> string \<Rightarrow> CommandEnvelope \<Rightarrow> ResultEntry) \<Rightarrow> bool" where
  "device_contract T answer =
    (\<forall>dev name commands es. fst (T dev (BatchExchange name commands)) = Entries es
        \<longrightarrow> es = map (answer dev name) commands)"

text \<open>Modelled from the spec: the errors that count as AuthError for the caller of the
  absent engine, a rejected token or credential by device code or by HTTP status.\<close>

fun is_auth_error :: "EngineError \<Rightarrow> bool" where
  "is_auth_error (DeviceError AuthError c d) = True"
| "is_auth_error UnauthorizedError = True"
| "is_auth_error e = False"

text \<open>
  A device in the manner of the tests' mocked \<open>fetch\<close>: it answers the exchanges with
  the replies queued, in order, whatever is asked; and a device that grants every login
  and answers every envelope on its own: \<open>GetDevInfo\<close> with the device name, any other
  command with its parameters.
\<close>

fun scripted :: "Reply list transport" where
  "scripted [] x = (NoReply, [])"
| "scripted (r # rs) x = (r, rs)"

definition login_ok :: Reply where
  "login_ok = Entries [Success (JObj [(''Token'', JObj [(''name'', JStr ''test-token''), (''leaseTime'', JNum 3600)])])]"

definition token_error :: Reply where
  "token_error = Entries [Failure (- 1) ''Invalid token'']"

definition retry_success :: Reply where
  "retry_success = Entries [Success (JObj [(''result'', JStr ''success after retry'')])]"

definition fresh :: Session where
  "fresh = \<lparr> username = ''admin'', password = ''password'', phase = Unauthenticated \<rparr>"

definition GetDevInfo :: CommandEnvelope where
  "GetDevInfo = \<lparr> command = ''GetDevInfo'', selector = 0, parameters = JObj [] \<rparr>"

definition GetEnc :: CommandEnvelope where
  "GetEnc = \<lparr> command = ''GetEnc'', selector = 0, parameters = JObj [(''channel'', JNum 0)] \<rparr>"

definition echo_answer :: "unit \<Rightarrow> string \<Rightarrow> CommandEnvelope \<Rightarrow> ResultEntry" where
  "echo_answer dev name c =
    (if command c = ''GetDevInfo'' then Success (JObj [(''name'', JStr ''Device1'')])
     else Success (parameters c))"

fun echo :: "unit transport" where
  "echo dev (LoginExchange u p) = (login_ok, dev)"
| "echo dev (BatchExchange name commands) = (Entries (map (echo_answer dev name) commands), dev)"
| "echo dev (LogoutExchange name) = (Entries [Success (JObj [])], dev)"

text \<open>
  The runs of the tests and scenarios: a token error answered by a successful retry, a token
  error twice, and the exchanges these runs perform.
\<close>

definition retried_script :: "Reply list" where
  "retried_script = [login_ok, token_error, login_ok, retry_success]"

definition rejected_script :: "Reply list" where
  "rejected_script = [login_ok, token_error, login_ok, token_error, login_ok, retry_success]"

definition login_exchange :: "Exchange \<times> Reply" where
  "login_exchange = (LoginExchange ''admin'' ''password'', login_ok)"

definition batch_exchange :: "Reply \<Rightarrow> Exchange \<times> Reply" where
  "batch_exchange r = (BatchExchange ''test-token'' [GetDevInfo], r)"

definition logged_in :: Session where
  "logged_in = fresh\<lparr> phase := Authenticated \<lparr> token = ''test-token'', issuedAt = 0, leaseSeconds = 3600 \<rparr> \<rparr>"

section \<open>Properties of grid normalization\<close>

lemma md_invalid:
  "md_width scope = None \<or> md_width scope = Some 0 \<or> md_height scope = None
    \<or> md_height scope = Some 0 \<or> md_table scope = None
    \<Longrightarrow> normalizeMdScope scope
        = Inl (Error [Lit ''Invalid motion detection scope received from device''])"
  by (auto simp add: normalizeMdScope_def Let_def not_num_def)

lemma md_mismatch:
  "md_width scope = Some w \<Longrightarrow> md_height scope = Some h \<Longrightarrow> md_table scope = Some t
    \<Longrightarrow> int (length t) \<noteq> w * h \<Longrightarrow> \<exists>m. normalizeMdScope scope = Inl (Error m)"
  by (simp add: normalizeMdScope_def Let_def)

lemma md_match:
  "md_width scope = Some w \<Longrightarrow> md_height scope = Some h \<Longrightarrow> md_table scope = Some t
    \<Longrightarrow> w \<noteq> 0 \<Longrightarrow> h \<noteq> 0 \<Longrightarrow> int (length t) = w * h
    \<Longrightarrow> normalizeMdScope scope = Inr \<lparr> width = w, height = h, bits = t \<rparr>"
  by (simp add: normalizeMdScope_def Let_def not_num_def)

lemma md_result:
  "normalizeMdScope scope = Inr g
    \<Longrightarrow> md_table scope = Some (bits g) \<and> md_width scope = Some (width g)
        \<and> md_height scope = Some (height g) \<and> int (length (bits g)) = width g * height g"
  unfolding normalizeMdScope_def Let_def not_num_def
  by (cases "md_width scope"; cases "md_height scope"; cases "md_table scope")
     (auto split: if_splits)

lemma ai_invalid:
  "ai_width payload = None \<or> ai_width payload = Some 0 \<or> ai_height payload = None
    \<or> ai_height payload = Some 0 \<or> ai_bits payload = None
    \<Longrightarrow> normalizeAiArea payload
        = Inl (Error [Lit ''Invalid AI detection area received from device''])"
  by (auto simp add: normalizeAiArea_def Let_def not_num_def)

lemma ai_mismatch:
  "ai_width payload = Some w \<Longrightarrow> ai_height payload = Some h \<Longrightarrow> ai_bits payload = Some t
    \<Longrightarrow> int (length t) \<noteq> w * h \<Longrightarrow> \<exists>m. normalizeAiArea payload = Inl (Error m)"
  by (simp add: normalizeAiArea_def Let_def)

lemma ai_match:
  "ai_width payload = Some w \<Longrightarrow> ai_height payload = Some h \<Longrightarrow> ai_bits payload = Some t
    \<Longrightarrow> w \<noteq> 0 \<Longrightarrow> h \<noteq> 0 \<Longrightarrow> int (length t) = w * h
    \<Longrightarrow> normalizeAiArea payload = Inr \<lparr> width = w, height = h, bits = t \<rparr>"
  by (simp add: normalizeAiArea_def Let_def not_num_def)

lemma ai_result:
  "normalizeAiArea payload = Inr g
    \<Longrightarrow> ai_bits payload = Some (bits g) \<and> ai_width payload = Some (width g)
        \<and> ai_height payload = Some (height g) \<and> int (length (bits g)) = width g * height g"
  unfolding normalizeAiArea_def Let_def not_num_def
  by (cases "ai_width payload"; cases "ai_height payload"; cases "ai_bits payload")
     (auto split: if_splits)

text \<open>
  Claim C1, as amended. For the motion-detection scope and for the AI detection area, with
  the width, height and bit-string the normalizer reads from the payload: a bit-string
  whose length differs from width times height always raises the failure (the thrown
  \<open>Error\<close>, which is the code's form of the specification's NormalizationError); with
  non-zero width and height and a bit-string of exactly width times height cells the result
  is the grid with that width, that height and the same bit-string; whatever grid is
  returned carries the payload's bit-string unchanged, of length width times height (never
  truncated, never padded); and a width or height that is zero or missing, or a missing
  bit-string, raises the invalid-grid failure whatever the lengths are.
\<close>

theorem grid_size_checked:
  "(md_width scope = Some w \<and> md_height scope = Some h \<and> md_table scope = Some t
      \<and> int (length t) \<noteq> w * h \<longrightarrow> (\<exists>m. normalizeMdScope scope = Inl (Error m)))
 \<and> (md_width scope = Some w \<and> md_height scope = Some h \<and> md_table scope = Some t
      \<and> w \<noteq> 0 \<and> h \<noteq> 0 \<and> int (length t) = w * h
      \<longrightarrow> normalizeMdScope scope = Inr \<lparr> width = w, height = h, bits = t \<rparr>)
 \<and> (normalizeMdScope scope = Inr g
      \<longrightarrow> md_table scope = Some (bits g) \<and> md_width scope = Some (width g)
        \<and> md_height scope = Some (height g) \<and> int (length (bits g)) = width g * height g)
 \<and> (md_width scope = None \<or> md_width scope = Some 0 \<or> md_height scope = None
      \<or> md_height scope = Some 0 \<or> md_table scope = None
      \<longrightarrow> normalizeMdScope scope
          = Inl (Error [Lit ''Invalid motion detection scope received from device'']))
 \<and> (ai_width payload = Some w \<and> ai_height payload = Some h \<and> ai_bits payload = Some t
      \<and> int (length t) \<noteq> w * h \<longrightarrow> (\<exists>m. normalizeAiArea payload = Inl (Error m)))
 \<and> (ai_width payload = Some w \<and> ai_height payload = Some h \<and> ai_bits payload = Some t
      \<and> w \<noteq> 0 \<and> h \<noteq> 0 \<and> int (length t) = w * h
      \<longrightarrow> normalizeAiArea payload = Inr \<lparr> width = w, height = h, bits = t \<rparr>)
 \<and> (normalizeAiArea payload = Inr g
      \<longrightarrow> ai_bits payload = Some (bits g) \<and> ai_width payload = Some (width g)
        \<and> ai_height payload = Some (height g) \<and> int (length (bits g)) = width g * height g)
 \<and> (ai_width payload = None \<or> ai_width payload = Some 0 \<or> ai_height payload = None
      \<or> ai_height payload = Some 0 \<or> ai_bits payload = None
      \<longrightarrow> normalizeAiArea payload
          = Inl (Error [Lit ''Invalid AI detection area received from device'']))"
proof (intro conjI impI)
  assume "md_width scope = Some w \<and> md_height scope = Some h \<and> md_table scope = Some t
      \<and> int (length t) \<noteq> w * h"
  then show "\<exists>m. normalizeMdScope scope = Inl (Error m)" by (simp add: md_mismatch)
next
  assume "md_width scope = Some w \<and> md_height scope = Some h \<and> md_table scope = Some t
      \<and> w \<noteq> 0 \<and> h \<noteq> 0 \<and> int (length t) = w * h"
  then show "normalizeMdScope scope = Inr \<lparr> width = w, height = h, bits = t \<rparr>"
    by (simp add: md_match)
next
  assume g: "normalizeMdScope scope = Inr g"
  from md_result [OF g] show "md_table scope = Some (bits g)" by simp
  from md_result [OF g] show "md_width scope = Some (width g)" by simp
  from md_result [OF g] show "md_height scope = Some (height g)" by simp
  from md_result [OF g] show "int (length (bits g)) = width g * height g" by simp
next
  assume "md_width scope = None \<or> md_width scope = Some 0 \<or> md_height scope = None
      \<or> md_height scope = Some 0 \<or> md_table scope = None"
  then show "normalizeMdScope scope
      = Inl (Error [Lit ''Invalid motion detection scope received from device''])"
    by (rule md_invalid)
next
  assume "ai_width payload = Some w \<and> ai_height payload = Some h \<and> ai_bits payload = Some t
      \<and> int (length t) \<noteq> w * h"
  then show "\<exists>m. normalizeAiArea payload = Inl (Error m)" by (simp add: ai_mismatch)
next
  assume "ai_width payload = Some w \<and> ai_height payload = Some h \<and> ai_bits payload = Some t
      \<and> w \<noteq> 0 \<and> h \<noteq> 0 \<and> int (length t) = w * h"
  then show "normalizeAiArea payload = Inr \<lparr> width = w, height = h, bits = t \<rparr>"
    by (simp add: ai_match)
next
  assume g: "normalizeAiArea payload = Inr g"
  from ai_result [OF g] show "ai_bits payload = Some (bits g)" by simp
  from ai_result [OF g] show "ai_width payload = Some (width g)" by simp
  from ai_result [OF g] show "ai_height payload = Some (height g)" by simp
  from ai_result [OF g] show "int (length (bits g)) = width g * height g" by simp
next
  assume "ai_width payload = None \<or> ai_width payload = Some 0 \<or> ai_height payload = None
      \<or> ai_height payload = Some 0 \<or> ai_bits payload = None"
  then show "normalizeAiArea payload
      = Inl (Error [Lit ''Invalid AI detection area received from device''])"
    by (rule ai_invalid)
qed

lemmas grid_simps = md_width_def md_height_def md_table_def ai_width_def ai_height_def ai_bits_def
      opt_field_def grid_4x3_def grid_0x3_def grid_3x0_def

lemma grid_4x3_fields:
  "md_width (Some (grid_4x3 t)) = Some 4" "md_height (Some (grid_4x3 t)) = Some 3"
  "md_table (Some (grid_4x3 t)) = Some t"
  "ai_width (Some (grid_4x3 t)) = Some 4" "ai_height (Some (grid_4x3 t)) = Some 3"
  "ai_bits (Some (grid_4x3 t)) = Some t"
  by (simp_all add: grid_simps)

text \<open>
  The scenario of the specification: 4 by 3 with 12 cells normalizes, with 11 cells raises;
  and a grid of 3 columns and no rows is rejected as invalid, as is an undefined payload.
\<close>

theorem grid_size_checked_witness:
  "normalizeMdScope (Some (grid_4x3 ''111100001111''))
     = Inr \<lparr> width = 4, height = 3, bits = ''111100001111'' \<rparr>
 \<and> (\<exists>m. normalizeMdScope (Some (grid_4x3 ''11110000111'')) = Inl (Error m))
 \<and> normalizeAiArea (Some (grid_4x3 ''111100001111''))
     = Inr \<lparr> width = 4, height = 3, bits = ''111100001111'' \<rparr>
 \<and> (\<exists>m. normalizeAiArea (Some (grid_4x3 ''11110000111'')) = Inl (Error m))
 \<and> normalizeMdScope (Some grid_3x0)
     = Inl (Error [Lit ''Invalid motion detection scope received from device''])
 \<and> normalizeAiArea (Some grid_3x0)
     = Inl (Error [Lit ''Invalid AI detection area received from device''])
 \<and> normalizeMdScope None
     = Inl (Error [Lit ''Invalid motion detection scope received from device''])"
proof -
  note ok = grid_size_checked [of "Some (grid_4x3 ''111100001111'')" 4 3 "''111100001111''" g
      "Some (grid_4x3 ''111100001111'')"]
  note bad = grid_size_checked [of "Some (grid_4x3 ''11110000111'')" 4 3 "''11110000111''" g
      "Some (grid_4x3 ''11110000111'')"]
  note flat = grid_size_checked [of "Some grid_3x0" 3 0 "[]" g "Some grid_3x0"]
  note absent = grid_size_checked [of None 3 0 "[]" g None]
  have "normalizeMdScope (Some (grid_4x3 ''111100001111''))
     = Inr \<lparr> width = 4, height = 3, bits = ''111100001111'' \<rparr>"
    using ok [THEN conjunct2, THEN conjunct1] by (simp add: grid_4x3_fields)
  moreover have "\<exists>m. normalizeMdScope (Some (grid_4x3 ''11110000111'')) = Inl (Error m)"
    using bad [THEN conjunct1] by (simp add: grid_4x3_fields)
  moreover have "normalizeAiArea (Some (grid_4x3 ''111100001111''))
     = Inr \<lparr> width = 4, height = 3, bits = ''111100001111'' \<rparr>"
    using ok [THEN conjunct2, THEN conjunct2, THEN conjunct2, THEN conjunct2, THEN conjunct2,
        THEN conjunct1]
    by (simp add: grid_4x3_fields)
  moreover have "\<exists>m. normalizeAiArea (Some (grid_4x3 ''11110000111'')) = Inl (Error m)"
    using bad [THEN conjunct2, THEN conjunct2, THEN conjunct2, THEN conjunct2, THEN conjunct1]
    by (simp add: grid_4x3_fields)
  moreover have "normalizeMdScope (Some grid_3x0)
     = Inl (Error [Lit ''Invalid motion detection scope received from device''])"
    using flat [THEN conjunct2, THEN conjunct2, THEN conjunct2, THEN conjunct1]
    by (simp add: grid_simps)
  moreover have "normalizeAiArea (Some grid_3x0)
     = Inl (Error [Lit ''Invalid AI detection area received from device''])"
    using flat [THEN conjunct2, THEN conjunct2, THEN conjunct2, THEN conjunct2, THEN conjunct2,
        THEN conjunct2, THEN conjunct2]
    by (simp add: grid_simps)
  moreover have "normalizeMdScope None
     = Inl (Error [Lit ''Invalid motion detection scope received from device''])"
    using absent [THEN conjunct2, THEN conjunct2, THEN conjunct2, THEN conjunct1]
    by (simp add: grid_simps)
  ultimately show ?thesis by blast
qed

text \<open>
  Claim C1 as stated fails for a degenerate grid: width 0, height 3 and the empty
  bit-string have length equal to width times height, yet both normalizers raise, because
  a zero width or height is rejected before the size is compared.
\<close>

theorem zero_width_grid_rejected:
  "int (length (the (md_table (Some grid_0x3)))) = the (md_width (Some grid_0x3)) * the (md_height (Some grid_0x3))
   \<and> normalizeMdScope (Some grid_0x3)
       = Inl (Error [Lit ''Invalid motion detection scope received from device''])
   \<and> normalizeAiArea (Some grid_0x3)
       = Inl (Error [Lit ''Invalid AI detection area received from device''])"
  by (simp add: normalizeMdScope_def normalizeAiArea_def grid_simps not_num_def)

section \<open>Properties of preset normalization\<close>

lemma listPresets_array:
  "truthy response \<Longrightarrow> find_rawPresets response = Some (JArr ps)
    \<Longrightarrow> listPresets channel response = normalize_entries channel ps"
  by (simp add: listPresets_def normalize_entries_def Let_def)

lemma listPresets_none:
  "find_rawPresets response = None \<Longrightarrow> listPresets channel response = []"
  by (simp add: listPresets_def normalize_entries_def Let_def)

lemma shape_Wrapped: "listPresets ch (Some (encode Wrapped ps)) = normalize_entries ch ps"
  by (rule listPresets_array) (simp_all add: find_rawPresets_def)

lemma shape_PtzPresetArray: "listPresets ch (Some (encode PtzPresetArray ps)) = normalize_entries ch ps"
  by (rule listPresets_array) (simp_all add: find_rawPresets_def)

lemma shape_RootPreset: "listPresets ch (Some (encode RootPreset ps)) = normalize_entries ch ps"
  by (rule listPresets_array) (simp_all add: find_rawPresets_def)

lemma shape_RootPresets: "listPresets ch (Some (encode RootPresets ps)) = normalize_entries ch ps"
  by (rule listPresets_array) (simp_all add: find_rawPresets_def)

lemma shape_RootArray: "listPresets ch (Some (encode RootArray ps)) = normalize_entries ch ps"
  by (rule listPresets_array) (simp_all add: find_rawPresets_def)

lemma shape_UnknownNested:
  "\<not> known_key k \<Longrightarrow> sub = ''preset'' \<or> sub = ''Preset''
    \<Longrightarrow> listPresets ch (Some (encode (UnknownNested k sub) ps)) = normalize_entries ch ps"
  by (rule listPresets_array) (auto simp add: find_rawPresets_def known_key_def)

lemma shape_UnknownKey:
  "\<not> known_key k \<Longrightarrow> preset_like ps
    \<Longrightarrow> listPresets ch (Some (encode (UnknownKey k) ps)) = normalize_entries ch ps"
proof -
  assume k: "\<not> known_key k" and "preset_like ps"
  then obtain kvs rest where ps: "ps = JObj kvs # rest"
    and ids: "''id'' \<in> set (map fst kvs) \<or> ''ID'' \<in> set (map fst kvs)"
    by (cases ps rule: preset_like.cases) auto
  show ?thesis
    by (rule listPresets_array) (use k ps ids in \<open>auto simp add: find_rawPresets_def known_key_def\<close>)
qed

text \<open>A single entry that is not an array, promoted or not read at all.\<close>

lemma singular_entry:
  assumes "\<And>xs. p \<noteq> JArr xs" and "key = ''preset'' \<or> key = ''Presets''"
  shows "listPresets ch (Some (JObj [(key, p)])) = normalize_entries ch [p]"
proof (cases "truthy (Some p)")
  case True
  with assms have "find_rawPresets (Some (JObj [(key, p)])) = Some (JArr [p])"
    by (cases p) (auto simp add: find_rawPresets_def)
  then show ?thesis by (intro listPresets_array) simp_all
next
  case False
  with assms have "find_rawPresets (Some (JObj [(key, p)])) = None"
    by (cases p) (auto simp add: find_rawPresets_def)
  moreover from False have "normalize_entries ch [p] = []"
    by (cases p) (auto simp add: normalize_entries_def has_identity_def)
  ultimately show ?thesis by (simp add: listPresets_none)
qed

lemma shape_Singular:
  assumes "not_array ps" and "s = SingularPreset \<or> s = SingularPresets"
  shows "listPresets ch (Some (encode s ps)) = normalize_entries ch ps"
proof -
  consider p where "ps = [p]" | "singular ps = JArr ps"
    by (cases ps rule: singular.cases) auto
  then show ?thesis
  proof cases
    case 1
    with assms(1) have "\<And>xs. p \<noteq> JArr xs" by auto
    with 1 assms(2) show ?thesis by (auto simp add: singular_entry)
  next
    case 2
    with assms(2) shape_RootPreset [of ch ps] shape_RootPresets [of ch ps] show ?thesis by auto
  qed
qed

lemma shape_canonical:
  "in_shape s ps \<Longrightarrow> listPresets ch (Some (encode s ps)) = normalize_entries ch ps"
proof (cases s)
  case Wrapped then show ?thesis by (simp only: shape_Wrapped)
next
  case PtzPresetArray then show ?thesis by (simp only: shape_PtzPresetArray)
next
  case RootPreset then show ?thesis by (simp only: shape_RootPreset)
next
  case RootPresets then show ?thesis by (simp only: shape_RootPresets)
next
  case SingularPreset
  assume "in_shape s ps"
  with SingularPreset shape_Singular [of ps s ch] show ?thesis by simp
next
  case SingularPresets
  assume "in_shape s ps"
  with SingularPresets shape_Singular [of ps s ch] show ?thesis by simp
next
  case RootArray then show ?thesis by (simp only: shape_RootArray)
next
  case (UnknownKey k)
  assume "in_shape s ps"
  with UnknownKey shape_UnknownKey [of k ps ch] show ?thesis by simp
next
  case (UnknownNested k sub)
  assume "in_shape s ps"
  with UnknownNested show ?thesis using shape_UnknownNested [of k sub ch ps] by simp
qed


text \<open>
  Claim C5. Two responses that carry the same raw entries \<open>ps\<close>, each in one of the
  known schema shapes, normalize to the same canonical presets: every shape resolves to
  \<open>normalize_entries\<close> of the entries.
\<close>

theorem preset_shapes_agree:
  "in_shape s ps \<Longrightarrow> in_shape s' ps
    \<Longrightarrow> listPresets ch (Some (encode s ps)) = listPresets ch (Some (encode s' ps))"
  by (simp only: shape_canonical)

text \<open>
  The entries of the unit test under \<open>PtzPreset.preset\<close> and under an unknown key, and
  one entry as a root array and as a singular \<open>Presets\<close> object.
\<close>

theorem preset_shapes_agree_witness:
  "in_shape (UnknownKey ''list'') sample_entries \<and> in_shape SingularPresets [JObj [(''id'', JNum 7)]]
   \<and> listPresets 0 (Some (encode Wrapped sample_entries))
       = listPresets 0 (Some (encode (UnknownKey ''list'') sample_entries))
   \<and> listPresets 0 (Some (encode RootArray [JObj [(''id'', JNum 7)]]))
       = listPresets 0 (Some (encode SingularPresets [JObj [(''id'', JNum 7)]]))"
  using preset_shapes_agree [of Wrapped sample_entries "UnknownKey ''list''" 0]
    preset_shapes_agree [of RootArray "[JObj [(''id'', JNum 7)]]" SingularPresets 0]
  by (simp add: sample_entries_def entry_valid_def known_key_def)

lemma lacking_identity: 
  "p = JNull \<or> (nullish (field (Some p) ''id'') \<and> nullish (field (Some p) ''ID'')) \<Longrightarrow> \<not> has_identity p"
  by (auto simp add: has_identity_def)

lemma with_identity:
  "\<not> nullish (field (Some p) ''id'') \<or> \<not> nullish (field (Some p) ''ID'') \<Longrightarrow> has_identity p"
  by (cases p) (auto simp add: has_identity_def)

lemma own_identity:
  "field (Some p) ''id'' = Some v \<Longrightarrow> v \<noteq> JNull \<Longrightarrow> ptz_id (to_PtzPreset ch p) = Number_js v"
  "nullish (field (Some p) ''id'') \<Longrightarrow> field (Some p) ''ID'' = Some v \<Longrightarrow> v \<noteq> JNull
    \<Longrightarrow> ptz_id (to_PtzPreset ch p) = Number_js v"
  by (cases v; cases "field (Some p) ''id''" rule: nullish.cases; simp add: to_PtzPreset_def Let_def)+

text \<open>
  Claim C6. An entry that is null, or whose \<open>id\<close> and \<open>ID\<close> are both missing (absent
  or null), is excluded: the result is the same as without it. An entry with an \<open>id\<close>
  or \<open>ID\<close> is retained, in place; and the identity of a retained entry is the number of
  its own \<open>id\<close> (or else \<open>ID\<close>), never a synthesized one.
\<close>

theorem identity_decides_membership:
  "(p = JNull \<or> (nullish (field (Some p) ''id'') \<and> nullish (field (Some p) ''ID''))
      \<longrightarrow> listPresets ch (Some (encode Wrapped (xs @ p # ys)))
          = listPresets ch (Some (encode Wrapped (xs @ ys))))
 \<and> (\<not> nullish (field (Some p) ''id'') \<or> \<not> nullish (field (Some p) ''ID'')
      \<longrightarrow> listPresets ch (Some (encode Wrapped (xs @ p # ys)))
          = listPresets ch (Some (encode Wrapped xs)) @ to_PtzPreset ch p
              # listPresets ch (Some (encode Wrapped ys)))
 \<and> (field (Some p) ''id'' = Some v \<and> v \<noteq> JNull \<longrightarrow> ptz_id (to_PtzPreset ch p) = Number_js v)
 \<and> (nullish (field (Some p) ''id'') \<and> field (Some p) ''ID'' = Some v \<and> v \<noteq> JNull
      \<longrightarrow> ptz_id (to_PtzPreset ch p) = Number_js v)"
proof (intro conjI impI)
  assume "p = JNull \<or> (nullish (field (Some p) ''id'') \<and> nullish (field (Some p) ''ID''))"
  then have "\<not> has_identity p" by (rule lacking_identity)
  then show "listPresets ch (Some (encode Wrapped (xs @ p # ys)))
      = listPresets ch (Some (encode Wrapped (xs @ ys)))"
    by (simp add: shape_Wrapped normalize_entries_def del: encode.simps)
next
  assume "\<not> nullish (field (Some p) ''id'') \<or> \<not> nullish (field (Some p) ''ID'')"
  then have "has_identity p" by (rule with_identity)
  then show "listPresets ch (Some (encode Wrapped (xs @ p # ys)))
      = listPresets ch (Some (encode Wrapped xs)) @ to_PtzPreset ch p
          # listPresets ch (Some (encode Wrapped ys))"
    by (simp add: shape_Wrapped normalize_entries_def del: encode.simps)
next
  assume "field (Some p) ''id'' = Some v \<and> v \<noteq> JNull"
  then show "ptz_id (to_PtzPreset ch p) = Number_js v" by (simp add: own_identity(1))
next
  assume "nullish (field (Some p) ''id'') \<and> field (Some p) ''ID'' = Some v \<and> v \<noteq> JNull"
  then show "ptz_id (to_PtzPreset ch p) = Number_js v" by (simp add: own_identity(2))
qed


lemmas entry_defs = entry_valid_def entry_no_id_def entry_upper_def entry_bare_def

text \<open>
  The unit test's entries: the null entry and the one without id drop out, the others stay.
\<close>

theorem identity_decides_membership_witness:
  "listPresets 0 (Some (encode Wrapped [entry_valid, JNull, entry_upper]))
     = listPresets 0 (Some (encode Wrapped [entry_valid, entry_upper]))
 \<and> listPresets 0 (Some (encode Wrapped [entry_valid, entry_no_id, entry_upper]))
     = listPresets 0 (Some (encode Wrapped [entry_valid, entry_upper]))
 \<and> listPresets 0 (Some (encode Wrapped [entry_valid, entry_upper]))
     = listPresets 0 (Some (encode Wrapped [entry_valid])) @ to_PtzPreset 0 entry_upper
         # listPresets 0 (Some (encode Wrapped []))
 \<and> ptz_id (to_PtzPreset 0 entry_valid) = Num 1
 \<and> ptz_id (to_PtzPreset 0 entry_upper) = Num 2"
  using identity_decides_membership [of JNull 0 "[entry_valid]" "[entry_upper]" "JNum 1"]
    identity_decides_membership [of entry_no_id 0 "[entry_valid]" "[entry_upper]" "JNum 1"]
    identity_decides_membership [of entry_upper 0 "[entry_valid]" "[]" "JNum 2"]
    identity_decides_membership [of entry_valid 0 "[]" "[]" "JNum 1"]
  by (simp add: entry_defs del: encode.simps)

lemma enable_cases:
  "nullish (field (Some p) ''enable'') \<Longrightarrow> ptz_enable (to_PtzPreset ch p) = True"
  "field (Some p) ''enable'' = Some (JNum 1) \<or> field (Some p) ''enable'' = Some (JBool True)
    \<Longrightarrow> ptz_enable (to_PtzPreset ch p) = True"
  "field (Some p) ''enable'' = Some v \<Longrightarrow> v \<noteq> JNull \<Longrightarrow> v \<noteq> JNum 1 \<Longrightarrow> v \<noteq> JBool True
    \<Longrightarrow> ptz_enable (to_PtzPreset ch p) = False"
    apply (simp add: to_PtzPreset_def Let_def)
   apply (auto simp add: to_PtzPreset_def Let_def)[1]
  apply (cases v; simp add: to_PtzPreset_def Let_def)
  done

text \<open>
  Claim C9. For a retained entry: without an \<open>enable\<close> flag (absent, or null) the
  canonical preset is enabled; the number 1 and the boolean true give enabled; every other
  value gives disabled.
\<close>

theorem enable_flag_normalized:
  "\<not> nullish (field (Some p) ''id'') \<or> \<not> nullish (field (Some p) ''ID'') \<Longrightarrow>
     (nullish (field (Some p) ''enable'')
        \<longrightarrow> map ptz_enable (listPresets ch (Some (encode Wrapped [p]))) = [True])
   \<and> (field (Some p) ''enable'' = Some (JNum 1) \<or> field (Some p) ''enable'' = Some (JBool True)
        \<longrightarrow> map ptz_enable (listPresets ch (Some (encode Wrapped [p]))) = [True])
   \<and> (field (Some p) ''enable'' = Some v \<and> v \<noteq> JNull \<and> v \<noteq> JNum 1 \<and> v \<noteq> JBool True
        \<longrightarrow> map ptz_enable (listPresets ch (Some (encode Wrapped [p]))) = [False])"
proof -
  assume "\<not> nullish (field (Some p) ''id'') \<or> \<not> nullish (field (Some p) ''ID'')"
  then have "has_identity p" by (rule with_identity)
  then have one: "listPresets ch (Some (encode Wrapped [p])) = [to_PtzPreset ch p]"
    by (simp add: shape_Wrapped normalize_entries_def del: encode.simps)
  show ?thesis
    unfolding one using enable_cases(1,2) [of p ch] enable_cases(3) [of p v ch] by simp
qed

text \<open>
  No flag; 1; true; 0; false; 2.
\<close>

theorem enable_flag_normalized_witness:
  "map ptz_enable (listPresets 0 (Some (encode Wrapped [entry_bare]))) = [True]
 \<and> map ptz_enable (listPresets 0 (Some (encode Wrapped [entry_valid]))) = [True]
 \<and> map ptz_enable (listPresets 0 (Some (encode Wrapped [JObj [(''id'', JNum 3), (''enable'', JBool True)]]))) = [True]
 \<and> map ptz_enable (listPresets 0 (Some (encode Wrapped [entry_upper]))) = [False]
 \<and> map ptz_enable (listPresets 0 (Some (encode Wrapped [JObj [(''id'', JNum 3), (''enable'', JBool False)]]))) = [False]
 \<and> map ptz_enable (listPresets 0 (Some (encode Wrapped [JObj [(''id'', JNum 3), (''enable'', JNum 2)]]))) = [False]"
  using enable_flag_normalized [of entry_bare 0 JNull]
    enable_flag_normalized [of entry_valid 0 JNull]
    enable_flag_normalized [of "JObj [(''id'', JNum 3), (''enable'', JBool True)]" 0 JNull]
    enable_flag_normalized [of entry_upper 0 "JNum 0"]
    enable_flag_normalized [of "JObj [(''id'', JNum 3), (''enable'', JBool False)]" 0 "JBool False"]
    enable_flag_normalized [of "JObj [(''id'', JNum 3), (''enable'', JNum 2)]" 0 "JNum 2"]
  by (simp add: entry_defs del: encode.simps)


section \<open>Properties of the PTZ requests\<close>

lemma gotoPreset_sends:
  "0 \<le> i \<Longrightarrow> i \<le> 64 \<Longrightarrow>
    snd (gotoPreset client ch i opts log)
      = log @ [\<lparr> cmd = ''PtzCtrl'',
                 param = JObj [(''channel'', JNum ch), (''op'', JStr ''ToPos''), (''id'', JNum i),
                   (''speed'', JNum (case opt_speed opts of None \<Rightarrow> 32
                      | Some s \<Rightarrow> if s < 1 then 1 else if s > 64 then 64 else s))],
                 action = None \<rparr>]"
  by (cases "opt_speed opts") (auto simp add: gotoPreset_def request_def)

lemma gotoPreset_rejects:
  "i < 0 \<or> i > 64 \<Longrightarrow> \<exists>m. gotoPreset client ch i opts log = (Inl (Error m), log)"
  by (auto simp add: gotoPreset_def)

lemma ptzCtrl_rejects_speed:
  "c_speed params = Some s \<Longrightarrow> s < 1 \<or> s > 64
    \<Longrightarrow> \<exists>m. ptzCtrl client params log = (Inl (Error m), log)"
  by (auto simp add: ptzCtrl_def)

text \<open>
  Claim C10. \<open>gotoPreset\<close> with a preset ID in 0..64 makes its request whatever the
  speed option is, with the speed clamped into 1..64 (below 1 gives 1, above 64 gives 64,
  absent gives 32); with a preset ID outside 0..64 it throws and makes no request.
  \<open>ptzCtrl\<close> throws, without a request, on a speed outside 1..64.
\<close>

theorem gotoPreset_clamps_speed:
  "(0 \<le> i \<and> i \<le> 64 \<longrightarrow>
      snd (gotoPreset client ch i opts log)
        = log @ [\<lparr> cmd = ''PtzCtrl'',
                   param = JObj [(''channel'', JNum ch), (''op'', JStr ''ToPos''), (''id'', JNum i),
                     (''speed'', JNum (case opt_speed opts of None \<Rightarrow> 32
                        | Some s \<Rightarrow> if s < 1 then 1 else if s > 64 then 64 else s))],
                   action = None \<rparr>])
 \<and> (i < 0 \<or> i > 64 \<longrightarrow> (\<exists>m. gotoPreset client ch i opts log = (Inl (Error m), log)))
 \<and> (c_speed params = Some v \<and> (v < 1 \<or> v > 64)
      \<longrightarrow> (\<exists>m. ptzCtrl client params log = (Inl (Error m), log)))"
  using gotoPreset_sends [of i client ch opts log] gotoPreset_rejects [of i client ch opts log]
    ptzCtrl_rejects_speed [of params v client log]
  by blast

text \<open>Speeds 100, 0, 50 and none; preset 65; \<open>ptzCtrl\<close> with speeds 65 and 0.\<close>

theorem gotoPreset_clamps_speed_witness:
  "snd (gotoPreset accepting 0 5 (speed_only 100) []) = [toPos_call 0 5 64]
 \<and> snd (gotoPreset accepting 0 5 (speed_only 0) []) = [toPos_call 0 5 1]
 \<and> snd (gotoPreset accepting 0 5 (speed_only 50) []) = [toPos_call 0 5 50]
 \<and> snd (gotoPreset accepting 0 0 \<lparr> opt_speed = None, opt_settleMs = None \<rparr> []) = [toPos_call 0 0 32]
 \<and> (\<exists>m. gotoPreset accepting 0 65 (speed_only 100) [] = (Inl (Error m), []))
 \<and> (\<exists>m. ptzCtrl accepting (move_left 65) [] = (Inl (Error m), []))
 \<and> (\<exists>m. ptzCtrl accepting (move_left 0) [] = (Inl (Error m), []))"
  using gotoPreset_clamps_speed [of 5 accepting 0 "speed_only 100" "[]" "move_left 65" 65]
    gotoPreset_clamps_speed [of 5 accepting 0 "speed_only 0" "[]" "move_left 0" 0]
    gotoPreset_clamps_speed [of 5 accepting 0 "speed_only 50" "[]" "move_left 0" 0]
    gotoPreset_clamps_speed [of 0 accepting 0 "\<lparr> opt_speed = None, opt_settleMs = None \<rparr>" "[]" "move_left 0" 0]
    gotoPreset_clamps_speed [of 65 accepting 0 "speed_only 100" "[]" "move_left 0" 0]
  by (simp add: speed_only_def move_left_def toPos_call_def)

text \<open>\<open>handlePtzError\<close> keeps the device code of a failure, not the device's detail.\<close>

lemma handlePtzError_keeps_code:
  "r \<noteq> 0 \<Longrightarrow> \<exists>e. handlePtzError r name = HttpError e \<and> rspCode e = r"
  by (simp add: handlePtzError_def new_ReolinkHttpError_def)

lemma handlePtzError_fixed_detail:
  "handlePtzError (- 4) name = HttpError e \<Longrightarrow> detail e = [Lit ''Parameter format error'']"
  by (auto simp add: handlePtzError_def new_ReolinkHttpError_def)

text \<open>
  \<open>PresetsModule.setPatrol\<close> and \<open>setPattern\<close> reject every numeric value out of
  range before the request, and send the request otherwise.
\<close>

lemma check_patrol_steps_passes:
  "check_patrol_steps index steps = None \<longleftrightarrow> list_all step_ok steps"
  by (induction steps arbitrary: index) (auto simp add: step_ok_def)

lemma check_patrol_steps_Error:
  "check_patrol_steps index steps = Some e \<Longrightarrow> \<exists>m. e = Error m"
  by (induction steps arbitrary: index) (auto split: if_splits)

lemma setPatrol_rejects:
  assumes "out_of_range 0 5 (map_of payload ''id'')
      \<or> (map_of payload ''preset'' = Some (JArr steps) \<and> (length steps > 16 \<or> \<not> list_all step_ok steps))"
  shows "\<exists>m. setPatrol client channel payload log = (Inl (Error m), log)"
proof (cases "out_of_range 0 5 (map_of payload ''id'')")
  case True
  then show ?thesis by (simp add: setPatrol_def)
next
  case False
  with assms have steps: "map_of payload ''preset'' = Some (JArr steps)"
    and bad: "length steps > 16 \<or> \<not> list_all step_ok steps" by auto
  show ?thesis
  proof (cases "length steps > 16")
    case True
    with False steps show ?thesis by (simp add: setPatrol_def)
  next
    case long: False
    with bad have "check_patrol_steps 0 steps \<noteq> None" by (simp add: check_patrol_steps_passes)
    then obtain m where "check_patrol_steps 0 steps = Some (Error m)"
      using check_patrol_steps_Error by fastforce
    with False steps long show ?thesis by (simp add: setPatrol_def)
  qed
qed

lemma setPatrol_sends:
  assumes "\<not> out_of_range 0 5 (map_of payload ''id'')"
    and "\<And>steps. map_of payload ''preset'' = Some (JArr steps)
          \<Longrightarrow> length steps \<le> 16 \<and> list_all step_ok steps"
  shows "setPatrol client channel payload log =
     request client \<lparr> cmd = ''SetPtzPatrol'',
        param = JObj [(''PtzPatrol'', JObj (spread_over [(''channel'', JNum channel)] payload))],
        action = None \<rparr> log"
proof (cases "isArray (map_of payload ''preset'')")
  case True
  then obtain steps where steps: "map_of payload ''preset'' = Some (JArr steps)"
    by (cases "map_of payload ''preset''" rule: isArray.cases) auto
  with assms(2) have "length steps \<le> 16" "check_patrol_steps 0 steps = None"
    by (simp_all add: check_patrol_steps_passes)
  with assms(1) steps show ?thesis by (simp add: setPatrol_def)
next
  case False
  with assms(1) show ?thesis by (simp add: setPatrol_def)
qed


lemma check_tracks_passes:
  "check_tracks index tracks = None \<longleftrightarrow> list_all track_ok tracks"
  by (induction tracks arbitrary: index) (auto simp add: track_ok_def)

lemma check_tracks_Error:
  "check_tracks index tracks = Some e \<Longrightarrow> \<exists>m. e = Error m"
  by (induction tracks arbitrary: index) (auto split: if_splits)

lemma setPattern_rejects:
  assumes "map_of payload ''track'' = Some (JArr tracks)" and "\<not> list_all track_ok tracks"
  shows "\<exists>m. setPattern client channel payload log = (Inl (Error m), log)"
proof -
  from assms(2) have "check_tracks 0 tracks \<noteq> None" by (simp add: check_tracks_passes)
  then obtain m where "check_tracks 0 tracks = Some (Error m)"
    using check_tracks_Error by fastforce
  with assms(1) show ?thesis by (simp add: setPattern_def)
qed

lemma setPattern_sends:
  assumes "\<And>tracks. map_of payload ''track'' = Some (JArr tracks) \<Longrightarrow> list_all track_ok tracks"
  shows "setPattern client channel payload log =
     request client \<lparr> cmd = ''SetPtzTattern'', param = JObj payload, action = None \<rparr> log"
proof (cases "isArray (map_of payload ''track'')")
  case True
  then obtain tracks where tracks: "map_of payload ''track'' = Some (JArr tracks)"
    by (cases "map_of payload ''track''" rule: isArray.cases) auto
  with assms have "check_tracks 0 tracks = None" by (simp add: check_tracks_passes)
  with tracks show ?thesis by (simp add: setPattern_def)
next
  case False
  then show ?thesis by (simp add: setPattern_def)
qed

text \<open>
  Claim C7 does not hold for \<open>setPtzPatrol\<close>. The array it validates is
  \<open>config.preset || config.points || config.path\<close>, and an empty \<open>preset\<close> array is
  truthy: the \<open>points\<close> beside it are never checked, yet they are what is written. With
  a point naming preset 100 the request goes out with step id 100; the same point without
  the empty \<open>preset\<close> array is rejected before any request.
\<close>

theorem setPtzPatrol_writes_unchecked_points:
  "setPtzPatrol accepting 0 patrol_empty_preset_with_points []
     = (Inr (JObj []),
        [patrol_call 0 (JObj [(''channel'', JNum 0), (''id'', JNum 0), (''enable'', JNum 1),
           (''preset'', JArr [JObj [(''id'', JNum 100), (''speed'', JNum 10), (''dwellTime'', JNum 5)]])])])
 \<and> setPtzPatrol accepting 0 patrol_points_only []
     = (Inl (Error [Lit ''Patrol step '', Shown (JNum 0),
          Lit '': preset ID must be between 0 and 64, got: '', Shown (JNum 100)]), [])"
  by code_simp


section \<open>Properties of the session manager and the request engine\<close>

lemma authenticate_closed:
  "phase s = Closed \<Longrightarrow> authenticate T now s dev = (Inl ClosedError, s, dev, [])"
  by (simp add: authenticate_def)

lemma authenticate_failed:
  assumes "phase s \<noteq> Closed" and "T dev (LoginExchange (username s) (password s)) = (lr, dev1)"
    and "read_login lr = Inl e"
  shows "authenticate T now s dev
    = (Inl e, s, dev1, [(LoginExchange (username s) (password s), lr)])"
  using assms by (simp add: authenticate_def)

lemma authenticate_succeeded:
  assumes "phase s \<noteq> Closed" and "T dev (LoginExchange (username s) (password s)) = (lr, dev1)"
    and "read_login lr = Inr granted"
  shows "authenticate T now s dev
    = (Inr (fst granted), granted_at now granted s, dev1,
       [(LoginExchange (username s) (password s), lr)])"
  using assms by (simp add: authenticate_def)

lemma authenticate_log:
  assumes "phase s \<noteq> Closed" and "authenticate T now s dev = (res, s1, dev1, log)"
  shows "\<exists>lr. log = [(LoginExchange (username s) (password s), lr)]"
  using assms
  by (auto simp add: authenticate_def Let_def split: prod.splits sum.splits)

lemma authenticate_granted:
  assumes "authenticate T now s dev = (Inr name, s1, dev1, log)"
  shows "phase s1 \<noteq> Closed \<and> username s1 = username s \<and> password s1 = password s"
  using assms
  by (auto simp add: authenticate_def granted_at_def Let_def
      split: if_splits prod.splits sum.splits)

lemma read_login_device_error:
  "read_login r = Inl (DeviceError k c d) \<Longrightarrow> \<exists>es. r = Entries es \<and> Failure c d \<in> set es"
  by (cases r rule: read_login.cases) (auto split: option.splits)

lemma authenticate_device_error:
  assumes "authenticate T now s dev = (Inl (DeviceError k c d), s1, dev1, log)"
  shows "\<exists>x es. log = [(x, Entries es)] \<and> Failure c d \<in> set es"
  using assms
  by (auto simp add: authenticate_def Let_def dest: read_login_device_error
      split: if_splits prod.splits sum.splits)

lemma currentToken_log:
  assumes "currentToken T now s dev = (res, s1, dev1, log)"
  shows "log = [] \<or> (\<exists>lr. log = [(LoginExchange (username s) (password s), lr)])"
proof (cases "phase s")
  case Unauthenticated
  with assms authenticate_log [of s T now dev res s1 dev1 log] show ?thesis
    by (simp add: currentToken_def)
next
  case (Authenticated ctx)
  with assms authenticate_log [of s T now dev res s1 dev1 log] show ?thesis
    by (auto simp add: currentToken_def split: if_splits)
next
  case Closed
  with assms show ?thesis by (simp add: currentToken_def)
qed

lemma currentToken_granted:
  assumes "currentToken T now s dev = (Inr name, s1, dev1, log)"
  shows "phase s1 \<noteq> Closed \<and> username s1 = username s \<and> password s1 = password s"
proof (cases "phase s")
  case Unauthenticated
  with assms authenticate_granted [of T now s dev name s1 dev1 log] show ?thesis
    by (simp add: currentToken_def)
next
  case (Authenticated ctx)
  with assms authenticate_granted [of T now s dev name s1 dev1 log] show ?thesis
    by (auto simp add: currentToken_def split: if_splits)
next
  case Closed
  with assms show ?thesis by (simp add: currentToken_def)
qed

lemma currentToken_device_error:
  assumes "currentToken T now s dev = (Inl (DeviceError k c d), s1, dev1, log)"
  shows "\<exists>x es. log = [(x, Entries es)] \<and> Failure c d \<in> set es"
proof (cases "phase s")
  case Unauthenticated
  with assms authenticate_device_error [of T now s dev k c d s1 dev1 log] show ?thesis
    by (simp add: currentToken_def)
next
  case (Authenticated ctx)
  with assms authenticate_device_error [of T now s dev k c d s1 dev1 log] show ?thesis
    by (auto simp add: currentToken_def split: if_splits)
next
  case Closed
  with assms show ?thesis by (simp add: currentToken_def)
qed

lemma currentToken_invalidated:
  "phase s \<noteq> Closed \<Longrightarrow> currentToken T now (invalidate s) dev = authenticate T now (invalidate s) dev"
  by (simp add: currentToken_def invalidate_def)

lemma invalidate_fields:
  "username (invalidate s) = username s" "password (invalidate s) = password s"
  "phase s \<noteq> Closed \<Longrightarrow> phase (invalidate s) \<noteq> Closed"
  by (simp_all add: invalidate_def)

lemma auth_failure_is_auth:
  "list_ex token_invalid_entry es \<Longrightarrow> is_auth_error (auth_failure es)"
  by (induction es rule: auth_failure.induct) auto

lemma auth_failure_entry:
  "auth_failure es = DeviceError k c d \<Longrightarrow> Failure c d \<in> set es \<and> k = AuthError"
  by (induction es rule: auth_failure.induct) (auto split: if_splits)

lemma token_invalid_auth:
  "token_invalid r \<Longrightarrow> is_auth_error (case r of Entries es \<Rightarrow> auth_failure es | _ \<Rightarrow> UnauthorizedError)"
  by (cases r) (auto simp add: auth_failure_is_auth)


lemma submit_no_token:
  assumes "commands \<noteq> []" and "currentToken T now s dev = (Inl e, s1, dev1, pre)"
  shows "submit T now s dev commands = (Inl e, s1, dev1, pre)"
  using assms by (simp add: submit_def)

lemma submit_first_ok:
  assumes "commands \<noteq> []" and "currentToken T now s dev = (Inr name, s1, dev1, pre)"
    and "T dev1 (BatchExchange name commands) = (r, d2)" and "\<not> token_invalid r"
  shows "submit T now s dev commands = (deliver r, s1, d2, pre @ [(BatchExchange name commands, r)])"
  using assms by (simp add: submit_def)

lemma submit_retry:
  assumes "commands \<noteq> []" and "currentToken T now s dev = (Inr name, s1, dev1, pre)"
    and "T dev1 (BatchExchange name commands) = (r, d2)" and "token_invalid r"
    and "resubmit T now s1 d2 commands = (rres, s3, dev3, l3)"
  shows "submit T now s dev commands = (rres, s3, dev3, pre @ [(BatchExchange name commands, r)] @ l3)"
  using assms by (simp add: submit_def)

lemma resubmit_login_failed:
  assumes "phase s \<noteq> Closed"
    and "T dev (LoginExchange (username s) (password s)) = (lr, dev1)"
    and "read_login lr = Inl e"
  shows "resubmit T now s dev commands
    = (Inl e, invalidate s, dev1, [(LoginExchange (username s) (password s), lr)])"
proof -
  from assms(1) have "phase (invalidate s) \<noteq> Closed" by (simp add: invalidate_fields)
  moreover from assms(2)
  have "T dev (LoginExchange (username (invalidate s)) (password (invalidate s))) = (lr, dev1)"
    by (simp add: invalidate_fields)
  ultimately have "authenticate T now (invalidate s) dev
    = (Inl e, invalidate s, dev1,
       [(LoginExchange (username (invalidate s)) (password (invalidate s)), lr)])"
    using assms(3) authenticate_failed [of "invalidate s" T dev lr dev1 e now] by simp
  with assms(1) show ?thesis
    by (simp add: resubmit_def currentToken_invalidated invalidate_fields)
qed

lemma resubmit_login_granted:
  assumes "phase s \<noteq> Closed"
    and "T dev (LoginExchange (username s) (password s)) = (lr, dev1)"
    and "read_login lr = Inr granted"
    and "T dev1 (BatchExchange (fst granted) commands) = (r2, dev2)"
  shows "resubmit T now s dev commands
    = (if token_invalid r2
       then (Inl (case r2 of Entries es \<Rightarrow> auth_failure es | _ \<Rightarrow> UnauthorizedError),
             invalidate (granted_at now granted (invalidate s)), dev2,
             [(LoginExchange (username s) (password s), lr),
              (BatchExchange (fst granted) commands, r2)])
       else (deliver r2, granted_at now granted (invalidate s), dev2,
             [(LoginExchange (username s) (password s), lr),
              (BatchExchange (fst granted) commands, r2)]))"
proof -
  from assms(1) have "phase (invalidate s) \<noteq> Closed" by (simp add: invalidate_fields)
  moreover from assms(2)
  have "T dev (LoginExchange (username (invalidate s)) (password (invalidate s))) = (lr, dev1)"
    by (simp add: invalidate_fields)
  ultimately have "authenticate T now (invalidate s) dev
    = (Inr (fst granted), granted_at now granted (invalidate s), dev1,
       [(LoginExchange (username (invalidate s)) (password (invalidate s)), lr)])"
    using assms(3) authenticate_succeeded [of "invalidate s" T dev lr dev1 granted now] by simp
  with assms(1,4) show ?thesis
    by (simp add: resubmit_def currentToken_invalidated invalidate_fields)
qed

text \<open>
  Claim C2. Let a token be in force for a non-empty batch (\<open>pre\<close> is the login that
  obtained it, if one was needed), let \<open>r\<close> be the reply to the batch under that token,
  \<open>lr\<close> the reply the device gives to a new login after that, and \<open>r2\<close> the reply to the
  same envelopes under the token that login grants. Then the exchanges of \<open>submit\<close>
  and its result are exactly these. If \<open>r\<close> carries no token-invalid signal, the batch
  is sent once and \<open>r\<close> is handed over as it is, other failures included: nothing is sent
  again. If \<open>r\<close> carries the signal and the new login fails, the exchanges are the batch
  and the login, and the login's error surfaces. If \<open>r\<close> carries the signal and the
  login grants a token, the exchanges are the batch, the login, and the same envelopes in
  the same order once more under the new token, and nothing after that: \<open>r2\<close> without
  the signal is handed over as it is, and \<open>r2\<close> with the signal surfaces as an
  authentication error.
\<close>

theorem token_invalid_retried_once:
  assumes nonempty: "commands \<noteq> []"
    and token: "currentToken T now s dev = (Inr name, s1, dev1, pre)"
    and first: "T dev1 (BatchExchange name commands) = (r, dev2)"
    and login: "T dev2 (LoginExchange (username s) (password s)) = (lr, dev3)"
    and second: "T dev3 (BatchExchange name2 commands) = (r2, dev4)"
  shows "(pre = [] \<or> (\<exists>lr0. pre = [(LoginExchange (username s) (password s), lr0)]))
    \<and> (\<not> token_invalid r \<longrightarrow>
         submit T now s dev commands
           = (deliver r, s1, dev2, pre @ [(BatchExchange name commands, r)]))
    \<and> (token_invalid r \<and> read_login lr = Inl e \<longrightarrow>
         submit T now s dev commands
           = (Inl e, invalidate s1, dev3,
              pre @ [(BatchExchange name commands, r),
                     (LoginExchange (username s) (password s), lr)]))
    \<and> (token_invalid r \<and> read_login lr = Inr (name2, lease) \<and> \<not> token_invalid r2 \<longrightarrow>
         submit T now s dev commands
           = (deliver r2, granted_at now (name2, lease) (invalidate s1), dev4,
              pre @ [(BatchExchange name commands, r),
                     (LoginExchange (username s) (password s), lr),
                     (BatchExchange name2 commands, r2)]))
    \<and> (token_invalid r \<and> read_login lr = Inr (name2, lease) \<and> token_invalid r2 \<longrightarrow>
         submit T now s dev commands
           = (Inl (case r2 of Entries es \<Rightarrow> auth_failure es | _ \<Rightarrow> UnauthorizedError),
              invalidate (granted_at now (name2, lease) (invalidate s1)), dev4,
              pre @ [(BatchExchange name commands, r),
                     (LoginExchange (username s) (password s), lr),
                     (BatchExchange name2 commands, r2)])
         \<and> is_auth_error (case r2 of Entries es \<Rightarrow> auth_failure es | _ \<Rightarrow> UnauthorizedError))"
proof -
  from currentToken_granted [OF token]
  have s1: "phase s1 \<noteq> Closed" and user: "username s1 = username s" "password s1 = password s"
    by simp_all
  from login user
  have login1: "T dev2 (LoginExchange (username s1) (password s1)) = (lr, dev3)" by simp
  have shape: "pre = [] \<or> (\<exists>lr0. pre = [(LoginExchange (username s) (password s), lr0)])"
    by (rule currentToken_log [OF token])
  have once: "submit T now s dev commands
      = (deliver r, s1, dev2, pre @ [(BatchExchange name commands, r)])"
    if "\<not> token_invalid r"
    using nonempty token first that by (rule submit_first_ok)
  have failed: "submit T now s dev commands
      = (Inl e, invalidate s1, dev3,
         pre @ [(BatchExchange name commands, r),
                (LoginExchange (username s) (password s), lr)])"
    if "token_invalid r \<and> read_login lr = Inl e"
  proof -
    from that have inv: "token_invalid r" and bad: "read_login lr = Inl e" by simp_all
    from resubmit_login_failed [of s1 T dev2 lr dev3 e now commands, OF s1 login1 bad]
    have "resubmit T now s1 dev2 commands
      = (Inl e, invalidate s1, dev3, [(LoginExchange (username s1) (password s1), lr)])" .
    from submit_retry [OF nonempty token first inv this] user show ?thesis by simp
  qed
  have again: "submit T now s dev commands
      = (if token_invalid r2
         then (Inl (case r2 of Entries es \<Rightarrow> auth_failure es | _ \<Rightarrow> UnauthorizedError),
               invalidate (granted_at now (name2, lease) (invalidate s1)), dev4,
               pre @ [(BatchExchange name commands, r),
                      (LoginExchange (username s) (password s), lr),
                      (BatchExchange name2 commands, r2)])
         else (deliver r2, granted_at now (name2, lease) (invalidate s1), dev4,
               pre @ [(BatchExchange name commands, r),
                      (LoginExchange (username s) (password s), lr),
                      (BatchExchange name2 commands, r2)]))"
    if "token_invalid r" and "read_login lr = Inr (name2, lease)"
  proof -
    from second have "T dev3 (BatchExchange (fst (name2, lease)) commands) = (r2, dev4)" by simp
    from resubmit_login_granted [of s1 T dev2 lr dev3 "(name2, lease)" commands r2 dev4 now,
        OF s1 login1 that(2) this]
    have "resubmit T now s1 dev2 commands
      = (if token_invalid r2
         then (Inl (case r2 of Entries es \<Rightarrow> auth_failure es | _ \<Rightarrow> UnauthorizedError),
               invalidate (granted_at now (name2, lease) (invalidate s1)), dev4,
               [(LoginExchange (username s1) (password s1), lr),
                (BatchExchange name2 commands, r2)])
         else (deliver r2, granted_at now (name2, lease) (invalidate s1), dev4,
               [(LoginExchange (username s1) (password s1), lr),
                (BatchExchange name2 commands, r2)]))"
      by simp
    then obtain rres s3 l3 where rs: "resubmit T now s1 dev2 commands = (rres, s3, dev4, l3)"
      and rres: "rres = (if token_invalid r2
          then Inl (case r2 of Entries es \<Rightarrow> auth_failure es | _ \<Rightarrow> UnauthorizedError)
          else deliver r2)"
      and s3: "s3 = (if token_invalid r2
          then invalidate (granted_at now (name2, lease) (invalidate s1))
          else granted_at now (name2, lease) (invalidate s1))"
      and l3: "l3 = [(LoginExchange (username s1) (password s1), lr),
                (BatchExchange name2 commands, r2)]"
      by (cases "token_invalid r2") simp_all
    from submit_retry [OF nonempty token first that(1) rs] rres s3 l3 user
    show ?thesis by simp
  qed
  show ?thesis
  proof (intro conjI impI)
    show "pre = [] \<or> (\<exists>lr0. pre = [(LoginExchange (username s) (password s), lr0)])"
      by (rule shape)
  next
    assume "\<not> token_invalid r"
    then show "submit T now s dev commands
        = (deliver r, s1, dev2, pre @ [(BatchExchange name commands, r)])"
      by (rule once)
  next
    assume "token_invalid r \<and> read_login lr = Inl e"
    then show "submit T now s dev commands
        = (Inl e, invalidate s1, dev3,
           pre @ [(BatchExchange name commands, r),
                  (LoginExchange (username s) (password s), lr)])"
      by (rule failed)
  next
    assume "token_invalid r \<and> read_login lr = Inr (name2, lease) \<and> \<not> token_invalid r2"
    with again show "submit T now s dev commands
        = (deliver r2, granted_at now (name2, lease) (invalidate s1), dev4,
           pre @ [(BatchExchange name commands, r),
                  (LoginExchange (username s) (password s), lr),
                  (BatchExchange name2 commands, r2)])"
      by simp
  next
    assume a: "token_invalid r \<and> read_login lr = Inr (name2, lease) \<and> token_invalid r2"
    with again show "submit T now s dev commands
        = (Inl (case r2 of Entries es \<Rightarrow> auth_failure es | _ \<Rightarrow> UnauthorizedError),
           invalidate (granted_at now (name2, lease) (invalidate s1)), dev4,
           pre @ [(BatchExchange name commands, r),
                  (LoginExchange (username s) (password s), lr),
                  (BatchExchange name2 commands, r2)])"
      by simp
    from a show "is_auth_error (case r2 of Entries es \<Rightarrow> auth_failure es | _ \<Rightarrow> UnauthorizedError)"
      by (simp add: token_invalid_auth)
  qed
qed

text \<open>
  The runs of the tests: a token error twice (login, batch, login, batch, then the
  authentication error and no further exchange although replies remain queued); a token
  error once (the retry succeeds); no token error; and a token error whose new login is
  refused.
\<close>

theorem token_invalid_retried_once_witness:
  "[GetDevInfo] \<noteq> []
 \<and> currentToken scripted 0 fresh rejected_script
     = (Inr ''test-token'', logged_in, [token_error, login_ok, token_error, login_ok, retry_success],
        [login_exchange])
 \<and> token_invalid token_error \<and> \<not> token_invalid retry_success
 \<and> read_login login_ok = Inr (''test-token'', 3600)
 \<and> read_login token_error = Inl (DeviceError AuthError (- 1) ''Invalid token'')
 \<and> submit scripted 0 fresh rejected_script [GetDevInfo]
     = (Inl (DeviceError AuthError (- 1) ''Invalid token''), fresh, [login_ok, retry_success],
        [login_exchange, batch_exchange token_error, login_exchange, batch_exchange token_error])
 \<and> is_auth_error (DeviceError AuthError (- 1) ''Invalid token'')
 \<and> submit scripted 0 fresh retried_script [GetDevInfo]
     = (Inr [Success (JObj [(''result'', JStr ''success after retry'')])], logged_in, [],
        [login_exchange, batch_exchange token_error, login_exchange, batch_exchange retry_success])
 \<and> submit scripted 0 fresh [login_ok, retry_success, login_ok, retry_success] [GetDevInfo]
     = (Inr [Success (JObj [(''result'', JStr ''success after retry'')])], logged_in,
        [login_ok, retry_success], [login_exchange, batch_exchange retry_success])
 \<and> submit scripted 0 fresh [login_ok, token_error, token_error, retry_success] [GetDevInfo]
     = (Inl (DeviceError AuthError (- 1) ''Invalid token''), fresh, [retry_success],
        [login_exchange, batch_exchange token_error,
         (LoginExchange ''admin'' ''password'', token_error)])"
proof -
  have ne: "[GetDevInfo] \<noteq> []" by simp
  have inv: "token_invalid token_error" by code_simp
  have ok: "\<not> token_invalid retry_success" by code_simp
  have granted: "read_login login_ok = Inr (''test-token'', 3600)" by code_simp
  have refused: "read_login token_error = Inl (DeviceError AuthError (- 1) ''Invalid token'')"
    by code_simp
  have user: "username fresh = ''admin''" "password fresh = ''password''"
    by (simp_all add: fresh_def)
  have sessions: "invalidate logged_in = fresh"
    "granted_at 0 (''test-token'', 3600) fresh = logged_in"
    by (simp_all add: invalidate_def granted_at_def logged_in_def fresh_def)
  have last_error: "(case token_error of Entries es \<Rightarrow> auth_failure es | _ \<Rightarrow> UnauthorizedError)
      = DeviceError AuthError (- 1) ''Invalid token''"
    by (simp add: token_error_def kind_of_def)
  have delivered: "deliver retry_success
      = Inr [Success (JObj [(''result'', JStr ''success after retry'')])]"
    by (simp add: retry_success_def)
  have token: "currentToken scripted 0 fresh rs = (Inr ''test-token'', logged_in, tl rs, [login_exchange])"
    if "rs = login_ok # rest" for rs rest
    using that granted
    by (simp add: currentToken_def authenticate_def fresh_def granted_at_def logged_in_def
        login_exchange_def)
  have rejected_token: "currentToken scripted 0 fresh rejected_script
     = (Inr ''test-token'', logged_in, [token_error, login_ok, token_error, login_ok, retry_success],
        [login_exchange])"
    using token [of rejected_script] by (simp add: rejected_script_def)
  note rejected = token_invalid_retried_once [of "[GetDevInfo]" scripted 0 fresh rejected_script
      "''test-token''" logged_in "[token_error, login_ok, token_error, login_ok, retry_success]"
      "[login_exchange]" token_error "[login_ok, token_error, login_ok, retry_success]"
      login_ok "[token_error, login_ok, retry_success]" "''test-token''" token_error
      "[login_ok, retry_success]" TransportError 3600]
  have twice: "submit scripted 0 fresh rejected_script [GetDevInfo]
     = (Inl (DeviceError AuthError (- 1) ''Invalid token''), fresh, [login_ok, retry_success],
        [login_exchange, batch_exchange token_error, login_exchange, batch_exchange token_error])
    \<and> is_auth_error (DeviceError AuthError (- 1) ''Invalid token'')"
    using rejected [OF ne rejected_token] inv granted
    by (simp add: user sessions last_error login_exchange_def batch_exchange_def)
  have retried_token: "currentToken scripted 0 fresh retried_script
     = (Inr ''test-token'', logged_in, [token_error, login_ok, retry_success], [login_exchange])"
    using token [of retried_script] by (simp add: retried_script_def)
  note retried = token_invalid_retried_once [of "[GetDevInfo]" scripted 0 fresh retried_script
      "''test-token''" logged_in "[token_error, login_ok, retry_success]"
      "[login_exchange]" token_error "[login_ok, retry_success]"
      login_ok "[retry_success]" "''test-token''" retry_success
      "[]" TransportError 3600]
  have once: "submit scripted 0 fresh retried_script [GetDevInfo]
     = (Inr [Success (JObj [(''result'', JStr ''success after retry'')])], logged_in, [],
        [login_exchange, batch_exchange token_error, login_exchange, batch_exchange retry_success])"
    using retried [OF ne retried_token] inv ok granted
    by (simp add: user sessions delivered login_exchange_def batch_exchange_def)
  have plain_token: "currentToken scripted 0 fresh [login_ok, retry_success, login_ok, retry_success]
     = (Inr ''test-token'', logged_in, [retry_success, login_ok, retry_success], [login_exchange])"
    using token [of "[login_ok, retry_success, login_ok, retry_success]"] by simp
  note plain = token_invalid_retried_once [of "[GetDevInfo]" scripted 0 fresh
      "[login_ok, retry_success, login_ok, retry_success]"
      "''test-token''" logged_in "[retry_success, login_ok, retry_success]"
      "[login_exchange]" retry_success "[login_ok, retry_success]"
      login_ok "[retry_success]" "''test-token''" retry_success
      "[]" TransportError 3600]
  have never: "submit scripted 0 fresh [login_ok, retry_success, login_ok, retry_success] [GetDevInfo]
     = (Inr [Success (JObj [(''result'', JStr ''success after retry'')])], logged_in,
        [login_ok, retry_success], [login_exchange, batch_exchange retry_success])"
    using plain [OF ne plain_token] ok
    by (simp add: user delivered batch_exchange_def)
  have refused_token: "currentToken scripted 0 fresh [login_ok, token_error, token_error, retry_success]
     = (Inr ''test-token'', logged_in, [token_error, token_error, retry_success], [login_exchange])"
    using token [of "[login_ok, token_error, token_error, retry_success]"] by simp
  note no_login = token_invalid_retried_once [of "[GetDevInfo]" scripted 0 fresh
      "[login_ok, token_error, token_error, retry_success]"
      "''test-token''" logged_in "[token_error, token_error, retry_success]"
      "[login_exchange]" token_error "[token_error, retry_success]"
      token_error "[retry_success]" "''test-token''" retry_success
      "[]" "DeviceError AuthError (- 1) ''Invalid token''" 3600]
  have stopped: "submit scripted 0 fresh [login_ok, token_error, token_error, retry_success] [GetDevInfo]
     = (Inl (DeviceError AuthError (- 1) ''Invalid token''), fresh, [retry_success],
        [login_exchange, batch_exchange token_error,
         (LoginExchange ''admin'' ''password'', token_error)])"
    using no_login [OF ne refused_token] inv refused
    by (simp add: user sessions batch_exchange_def)
  from ne rejected_token inv ok granted refused twice once never stopped
  show ?thesis by (intro conjI) simp_all
qed

text \<open>
  A device error surfaced by the modelled engine carries the code and the detail of a failure
  entry of the last reply received; the entries it returns are those of the last reply.
\<close>

lemma resubmit_device_error:
  assumes open_s: "phase s \<noteq> Closed"
    and run: "resubmit T now s dev commands = (Inl (DeviceError k c d), s2, dev2, log)"
  shows "\<exists>x es. log \<noteq> [] \<and> last log = (x, Entries es) \<and> Failure c d \<in> set es"
proof -
  obtain ares s1 dev1 l1 where a: "authenticate T now (invalidate s) dev = (ares, s1, dev1, l1)"
    by (cases "authenticate T now (invalidate s) dev") auto
  with open_s have ct: "currentToken T now (invalidate s) dev = (ares, s1, dev1, l1)"
    by (simp add: currentToken_invalidated)
  show ?thesis
  proof (cases ares)
    case (Inl e)
    with run ct have "e = DeviceError k c d" "log = l1" by (simp_all add: resubmit_def)
    with a Inl authenticate_device_error [of T now "invalidate s" dev k c d s1 dev1 l1]
    show ?thesis by auto
  next
    case (Inr name)
    obtain r d2 where t: "T dev1 (BatchExchange name commands) = (r, d2)"
      by (cases "T dev1 (BatchExchange name commands)") auto
    show ?thesis
    proof (cases "token_invalid r")
      case True
      with run ct Inr t
      have log: "log = l1 @ [(BatchExchange name commands, r)]"
        and e: "(case r of Entries es \<Rightarrow> auth_failure es | _ \<Rightarrow> UnauthorizedError) = DeviceError k c d"
        by (simp_all add: resubmit_def)
      from e obtain es where es: "r = Entries es" "auth_failure es = DeviceError k c d"
        by (cases r) auto
      with auth_failure_entry [of es k c d] log show ?thesis by simp
    next
      case False
      with run ct Inr t have "deliver r = Inl (DeviceError k c d)" by (simp add: resubmit_def)
      then show ?thesis by (cases r) auto
    qed
  qed
qed

lemma submit_device_error:
  assumes run: "submit T now s dev commands = (Inl (DeviceError k c d), s2, dev2, log)"
  shows "\<exists>x es. log \<noteq> [] \<and> last log = (x, Entries es) \<and> Failure c d \<in> set es"
proof -
  from run have nonempty: "commands \<noteq> []" by (auto simp add: submit_def)
  obtain cres s1 dev1 pre where ct: "currentToken T now s dev = (cres, s1, dev1, pre)"
    by (cases "currentToken T now s dev") auto
  show ?thesis
  proof (cases cres)
    case (Inl e)
    with ct have ct': "currentToken T now s dev = (Inl e, s1, dev1, pre)" by simp
    from submit_no_token [OF nonempty ct'] run have "e = DeviceError k c d" "log = pre" by simp_all
    with ct' currentToken_device_error [of T now s dev k c d s1 dev1 pre] show ?thesis by auto
  next
    case (Inr name)
    with ct have ct': "currentToken T now s dev = (Inr name, s1, dev1, pre)" by simp
    from currentToken_granted [OF ct'] have s1: "phase s1 \<noteq> Closed" by simp
    obtain r d2 where t: "T dev1 (BatchExchange name commands) = (r, d2)"
      by (cases "T dev1 (BatchExchange name commands)") auto
    show ?thesis
    proof (cases "token_invalid r")
      case False
      from submit_first_ok [OF nonempty ct' t False] run
      have "deliver r = Inl (DeviceError k c d)" by simp
      then show ?thesis by (cases r) auto
    next
      case True
      obtain rres s3 dev3 l3 where rs: "resubmit T now s1 d2 commands = (rres, s3, dev3, l3)"
        by (cases "resubmit T now s1 d2 commands") auto
      from submit_retry [OF nonempty ct' t True rs] run
      have log: "log = pre @ [(BatchExchange name commands, r)] @ l3"
        and res: "rres = Inl (DeviceError k c d)" by simp_all
      from rs res have "resubmit T now s1 d2 commands = (Inl (DeviceError k c d), s3, dev3, l3)"
        by simp
      from resubmit_device_error [OF s1 this]
      obtain x es where "l3 \<noteq> []" "last l3 = (x, Entries es)" "Failure c d \<in> set es" by blast
      with log show ?thesis by simp
    qed
  qed
qed

lemma deliver_entries: "deliver r = Inr results \<Longrightarrow> r = Entries results"
  by (cases r) auto

lemma resubmit_entries:
  assumes open_s: "phase s \<noteq> Closed"
    and run: "resubmit T now s dev commands = (Inr results, s2, dev2, log)"
  shows "\<exists>name d. log \<noteq> [] \<and> last log = (BatchExchange name commands, Entries results)
           \<and> fst (T d (BatchExchange name commands)) = Entries results"
proof -
  obtain ares s1 dev1 l1 where a: "authenticate T now (invalidate s) dev = (ares, s1, dev1, l1)"
    by (cases "authenticate T now (invalidate s) dev") auto
  with open_s have ct: "currentToken T now (invalidate s) dev = (ares, s1, dev1, l1)"
    by (simp add: currentToken_invalidated)
  show ?thesis
  proof (cases ares)
    case (Inl e)
    with run ct show ?thesis by (simp add: resubmit_def)
  next
    case (Inr name)
    obtain r d2 where t: "T dev1 (BatchExchange name commands) = (r, d2)"
      by (cases "T dev1 (BatchExchange name commands)") auto
    show ?thesis
    proof (cases "token_invalid r")
      case True
      with run ct Inr t show ?thesis by (simp add: resubmit_def)
    next
      case False
      with run ct Inr t have log: "log = l1 @ [(BatchExchange name commands, r)]"
        and "deliver r = Inr results" by (simp_all add: resubmit_def)
      then have r: "r = Entries results" by (simp add: deliver_entries)
      with t have "fst (T dev1 (BatchExchange name commands)) = Entries results" by simp
      with log r show ?thesis by (intro exI [of _ name] exI [of _ dev1]) simp
    qed
  qed
qed

lemma submit_entries:
  assumes nonempty: "commands \<noteq> []"
    and run: "submit T now s dev commands = (Inr results, s2, dev2, log)"
  shows "\<exists>name d. log \<noteq> [] \<and> last log = (BatchExchange name commands, Entries results)
           \<and> fst (T d (BatchExchange name commands)) = Entries results"
proof -
  obtain cres s1 dev1 pre where ct: "currentToken T now s dev = (cres, s1, dev1, pre)"
    by (cases "currentToken T now s dev") auto
  show ?thesis
  proof (cases cres)
    case (Inl e)
    with ct have ct': "currentToken T now s dev = (Inl e, s1, dev1, pre)" by simp
    from submit_no_token [OF nonempty ct'] run show ?thesis by simp
  next
    case (Inr name)
    with ct have ct': "currentToken T now s dev = (Inr name, s1, dev1, pre)" by simp
    from currentToken_granted [OF ct'] have s1: "phase s1 \<noteq> Closed" by simp
    obtain r d2 where t: "T dev1 (BatchExchange name commands) = (r, d2)"
      by (cases "T dev1 (BatchExchange name commands)") auto
    show ?thesis
    proof (cases "token_invalid r")
      case False
      from submit_first_ok [OF nonempty ct' t False] run
      have log: "log = pre @ [(BatchExchange name commands, r)]" and "deliver r = Inr results"
        by simp_all
      then have r: "r = Entries results" by (simp add: deliver_entries)
      with t have "fst (T dev1 (BatchExchange name commands)) = Entries results" by simp
      with log r show ?thesis by (intro exI [of _ name] exI [of _ dev1]) simp
    next
      case True
      obtain rres s3 dev3 l3 where rs: "resubmit T now s1 d2 commands = (rres, s3, dev3, l3)"
        by (cases "resubmit T now s1 d2 commands") auto
      from submit_retry [OF nonempty ct' t True rs] run
      have log: "log = pre @ [(BatchExchange name commands, r)] @ l3"
        and res: "rres = Inr results" by simp_all
      from rs res have "resubmit T now s1 d2 commands = (Inr results, s3, dev3, l3)" by simp
      from resubmit_entries [OF s1 this]
      obtain name2 d where "l3 \<noteq> []" "last l3 = (BatchExchange name2 commands, Entries results)"
        "fst (T d (BatchExchange name2 commands)) = Entries results" by blast
      with log show ?thesis by (intro exI [of _ name2] exI [of _ d]) simp
    qed
  qed
qed

text \<open>
  Claim C3. For a non-empty batch, with a device that answers the envelopes one by one in
  order, the entries \<open>submit\<close> returns are as many as the envelopes, and entry \<open>i\<close> is
  the device's answer to envelope \<open>i\<close>.
\<close>

theorem results_follow_commands:
  assumes contract: "device_contract T answer"
    and nonempty: "commands \<noteq> []"
    and run: "submit T now s dev commands = (Inr results, s2, dev2, log)"
  shows "length results = length commands
    \<and> (\<exists>d name. \<forall>i<length commands. results ! i = answer d name (commands ! i))"
proof -
  from submit_entries [OF nonempty run] obtain name d
    where "fst (T d (BatchExchange name commands)) = Entries results" by blast
  with contract have mapped: "results = map (answer d name) commands"
    by (simp add: device_contract_def)
  then have "length results = length commands" by simp
  moreover from mapped have "\<forall>i<length commands. results ! i = answer d name (commands ! i)"
    by simp
  ultimately show ?thesis by blast
qed

text \<open>
  The scenario of the specification: \<open>GetDevInfo\<close> and \<open>GetEnc\<close> with channel 0.
\<close>

theorem results_follow_commands_witness:
  "device_contract echo echo_answer
 \<and> [GetDevInfo, GetEnc] \<noteq> []
 \<and> submit echo 0 fresh () [GetDevInfo, GetEnc]
     = (Inr [Success (JObj [(''name'', JStr ''Device1'')]), Success (JObj [(''channel'', JNum 0)])],
        logged_in, (),
        [login_exchange, (BatchExchange ''test-token'' [GetDevInfo, GetEnc],
           Entries [Success (JObj [(''name'', JStr ''Device1'')]), Success (JObj [(''channel'', JNum 0)])])])
 \<and> (length [Success (JObj [(''name'', JStr ''Device1'')]), Success (JObj [(''channel'', JNum 0)])]
       = length [GetDevInfo, GetEnc]
    \<and> (\<exists>d name. \<forall>i<length [GetDevInfo, GetEnc].
          [Success (JObj [(''name'', JStr ''Device1'')]), Success (JObj [(''channel'', JNum 0)])] ! i
            = echo_answer d name ([GetDevInfo, GetEnc] ! i)))"
proof -
  have contract: "device_contract echo echo_answer"
    by (auto simp add: device_contract_def)
  have ne: "[GetDevInfo, GetEnc] \<noteq> []" by simp
  have run: "submit echo 0 fresh () [GetDevInfo, GetEnc]
     = (Inr [Success (JObj [(''name'', JStr ''Device1'')]), Success (JObj [(''channel'', JNum 0)])],
        logged_in, (),
        [login_exchange, (BatchExchange ''test-token'' [GetDevInfo, GetEnc],
           Entries [Success (JObj [(''name'', JStr ''Device1'')]), Success (JObj [(''channel'', JNum 0)])])])"
    by code_simp
  note ordered = results_follow_commands [OF contract ne run]
  show ?thesis
    by (rule conjI [OF contract conjI [OF ne conjI [OF run ordered]]])
qed

text \<open>
  Claim C4. \<open>submit\<close> of the empty sequence returns the empty sequence and performs no
  exchange: session and device are unchanged and the list of exchanges is empty.
\<close>

theorem empty_submit_is_noop:
  "submit T now s dev [] = (Inr [], s, dev, [])"
  by (simp add: submit_def)

section \<open>Properties of the surfaced errors\<close>









end
